theory Spec2Isabelle
  imports Complex_Main "HOL-Library.Multiset"
begin

section \<open>Python strings and the builtins the validator calls\<close>

text \<open>
  A Python \<open>str\<close> is a sequence of Unicode code points; a code point is a natural number.
  \<open>lit\<close> turns an ASCII literal of the source into such a sequence.
\<close>

type_synonym pychar = nat
type_synonym pystr = "pychar list"

definition lit :: "string \<Rightarrow> pystr" where
  "lit cs = map of_char cs"

definition dq :: pychar where
  "dq = 34"

text \<open>
  \<open>str.isspace\<close> of one code point: the complete table of CPython
  (\<open>_PyUnicode_IsWhitespace\<close>).
\<close>

definition isspace :: "pychar \<Rightarrow> bool" where
  "isspace c = ((9 \<le> c \<and> c \<le> 13) \<or> (28 \<le> c \<and> c \<le> 32) \<or> c = 133 \<or> c = 160 \<or> c = 5760
     \<or> (8192 \<le> c \<and> c \<le> 8202) \<or> c = 8232 \<or> c = 8233 \<or> c = 8239 \<or> c = 8287 \<or> c = 12288)"

text \<open>
  \<open>s.lstrip(...)\<close>, \<open>s.rstrip(...)\<close> and \<open>s.strip(...)\<close> drop, from the left end, the right
  end or both, every character that satisfies the test; with no argument the test is
  \<open>isspace\<close>, with an argument \<open>chars\<close> it is membership in \<open>chars\<close>.
\<close>

definition lstrip_with :: "(pychar \<Rightarrow> bool) \<Rightarrow> pystr \<Rightarrow> pystr" where
  "lstrip_with P s = dropWhile P s"

definition rstrip_with :: "(pychar \<Rightarrow> bool) \<Rightarrow> pystr \<Rightarrow> pystr" where
  "rstrip_with P s = rev (dropWhile P (rev s))"

definition strip_with :: "(pychar \<Rightarrow> bool) \<Rightarrow> pystr \<Rightarrow> pystr" where
  "strip_with P s = rstrip_with P (lstrip_with P s)"

definition strip :: "pystr \<Rightarrow> pystr" where
  "strip s = strip_with isspace s"

definition strip_chars :: "pystr \<Rightarrow> pystr \<Rightarrow> pystr" where
  "strip_chars chars s = strip_with (\<lambda>c. c \<in> set chars) s"

definition lstrip_chars :: "pystr \<Rightarrow> pystr \<Rightarrow> pystr" where
  "lstrip_chars chars s = lstrip_with (\<lambda>c. c \<in> set chars) s"

text \<open>
  A scalar as \<open>normalize_str\<close> sees it. The function only asks whether the value is
  \<open>None\<close>, whether it is an \<open>int\<close> or a \<open>float\<close> (a \<open>bool\<close> is an \<open>int\<close>), and otherwise
  calls \<open>str(v)\<close>; so a number carries its \<open>str(v)\<close> text and every other value carries its
  \<open>str(v)\<close> text too (for a \<open>str\<close>, the string itself).
\<close>

datatype pyval = PNone | PNum pystr | PText pystr

text \<open>
  \<^verbatim>\<open>
  def normalize_str(v):
      if v is None: return ""
      if isinstance(v, (int, float)): return str(v).strip()
      return str(v).strip().strip('"').strip()
  \<close>
\<close>

fun normalize_str :: "pyval \<Rightarrow> pystr" where
  "normalize_str PNone = []"
| "normalize_str (PNum t) = strip t"
| "normalize_str (PText t) = strip (strip_chars [dq] (strip t))"

section \<open>The Python library behind the validator\<close>

text \<open>
  A \<open>float\<close>: a finite value (the rational number the double denotes, \<open>Finite 0\<close> being
  \<open>0.0\<close>), the negative zero \<open>-0.0\<close> (which is not below zero but prints as \<open>-0.0\<close>), an
  infinity or a NaN. The source only compares a float with zero, asks \<open>isinf\<close> and
  \<open>isnan\<close>, rounds it and prints it.
\<close>

datatype pyfloat = Finite rat | NegZero | PosInf | NegInf | NaN

fun float_lt0 :: "pyfloat \<Rightarrow> bool" where
  "float_lt0 (Finite q) = (q < 0)"
| "float_lt0 NegZero = False"
| "float_lt0 NegInf = True"
| "float_lt0 PosInf = False"
| "float_lt0 NaN = False"

fun isinf :: "pyfloat \<Rightarrow> bool" where
  "isinf PosInf = True"
| "isinf NegInf = True"
| "isinf (Finite q) = False"
| "isinf NegZero = False"
| "isinf NaN = False"

fun isnan :: "pyfloat \<Rightarrow> bool" where
  "isnan NaN = True"
| "isnan PosInf = False"
| "isnan NegInf = False"
| "isnan (Finite q) = False"
| "isnan NegZero = False"

text \<open>
  The functions of Python and its standard library that the source calls and this theory
  does not define are the fields of one record, passed to every function that needs them:
  \<^item> \<open>py_float\<close>: \<open>float(s)\<close>; \<open>None\<close> when it raises;
  \<^item> \<open>py_round2\<close>: \<open>round(x, 2)\<close>;
  \<^item> \<open>py_str_float\<close>: \<open>str(x)\<close> of a float;
  \<^item> \<open>py_format\<close>: \<open>pattern.format(**vals)\<close>; \<open>None\<close> when it raises;
  \<^item> \<open>uni_isalnum\<close>, \<open>uni_isdigit\<close>: \<open>str.isalnum\<close> and \<open>str.isdigit\<close> of a code point
    from 256 on (below 256 the tables are written out);
  \<^item> \<open>uni_lower\<close>: \<open>str.lower\<close> of a string that is not all ASCII;
  \<^item> \<open>py_dictreader\<close>: \<open>csv.DictReader(lines)\<close>, as its \<open>fieldnames\<close> and its rows.
  Every theorem below that has a library \<open>L\<close> holds for every such record.
\<close>

type_synonym rawrow = "(pystr option \<times> pyval) list"

record pylib =
  py_float :: "pystr \<Rightarrow> pyfloat option"
  py_round2 :: "pyfloat \<Rightarrow> pyfloat"
  py_str_float :: "pyfloat \<Rightarrow> pystr"
  py_format :: "pystr \<Rightarrow> (pystr \<times> pystr) list \<Rightarrow> pystr option"
  uni_isalnum :: "pychar \<Rightarrow> bool"
  uni_isdigit :: "pychar \<Rightarrow> bool"
  uni_lower :: "pystr \<Rightarrow> pystr"
  py_dictreader :: "pystr list \<Rightarrow> pystr list option \<times> rawrow list"

definition isalnum :: "pylib \<Rightarrow> pychar \<Rightarrow> bool" where
  "isalnum L c =
     (if c < 256 then
        (48 \<le> c \<and> c \<le> 57) \<or> (65 \<le> c \<and> c \<le> 90) \<or> (97 \<le> c \<and> c \<le> 122) \<or> c = 170
        \<or> (178 \<le> c \<and> c \<le> 179) \<or> c = 181 \<or> (185 \<le> c \<and> c \<le> 186) \<or> (188 \<le> c \<and> c \<le> 190)
        \<or> (192 \<le> c \<and> c \<le> 214) \<or> (216 \<le> c \<and> c \<le> 246) \<or> 248 \<le> c
      else uni_isalnum L c)"

definition isdigit :: "pylib \<Rightarrow> pychar \<Rightarrow> bool" where
  "isdigit L c =
     (if c < 256 then (48 \<le> c \<and> c \<le> 57) \<or> (178 \<le> c \<and> c \<le> 179) \<or> c = 185
      else uni_isdigit L c)"

text \<open>\<open>s.isdigit()\<close>: at least one character, and every character a digit.\<close>

definition str_isdigit :: "pylib \<Rightarrow> pystr \<Rightarrow> bool" where
  "str_isdigit L s = (s \<noteq> [] \<and> list_all (isdigit L) s)"

definition lower :: "pylib \<Rightarrow> pystr \<Rightarrow> pystr" where
  "lower L s =
     (if list_all (\<lambda>c. c < 128) s then map (\<lambda>c. if 65 \<le> c \<and> c \<le> 90 then c + 32 else c) s
      else uni_lower L s)"

text \<open>\<open>sep.join(xs)\<close>.\<close>

fun join :: "pystr \<Rightarrow> pystr list \<Rightarrow> pystr" where
  "join sep [] = []"
| "join sep [x] = x"
| "join sep (x # y # ys) = x @ sep @ join sep (y # ys)"

text \<open>\<open>s.replace(c, new)\<close> for a one-character \<open>c\<close>.\<close>

definition replace_char :: "pychar \<Rightarrow> pystr \<Rightarrow> pystr \<Rightarrow> pystr" where
  "replace_char c new s = concat (map (\<lambda>x. if x = c then new else [x]) s)"

section \<open>Field resolver\<close>

text \<open>
  \<^verbatim>\<open>
  CSV_FIELD_ALIASES = {
      "sku": ["sku", "productcode", "productCode", "product_code", "product id", "productid"],
      "postCode": ["postcode", "postCode", "post_code", "post code", "zip", "zip_code"],
      "price": ["price", "unit_price", "unitPrice", "unitprice", "unit price", "amount"],
  }
  \<close>
\<close>

definition CSV_FIELD_ALIASES :: "(pystr \<times> pystr list) list" where
  "CSV_FIELD_ALIASES =
     [(lit ''sku'', [lit ''sku'', lit ''productcode'', lit ''productCode'', lit ''product_code'',
                     lit ''product id'', lit ''productid'']),
      (lit ''postCode'', [lit ''postcode'', lit ''postCode'', lit ''post_code'', lit ''post code'',
                          lit ''zip'', lit ''zip_code'']),
      (lit ''price'', [lit ''price'', lit ''unit_price'', lit ''unitPrice'', lit ''unitprice'',
                       lit ''unit price'', lit ''amount''])]"

text \<open>\<open>CSV_FIELD_ALIASES.get(key, [])\<close>.\<close>

definition aliases_get :: "pystr \<Rightarrow> pystr list" where
  "aliases_get key = (case map_of CSV_FIELD_ALIASES key of None \<Rightarrow> [] | Some al \<Rightarrow> al)"

text \<open>
  \<^verbatim>\<open>
  def _lower_keys(d): return {(k or "").strip().lower(): v for k, v in d.items()}
  \<close>
  A row is a dict in insertion order; a later item with the same lowered key overwrites
  an earlier one. A \<open>csv.DictReader\<close> row can have the key \<open>None\<close>.
\<close>

definition lower_keys :: "pylib \<Rightarrow> rawrow \<Rightarrow> (pystr \<rightharpoonup> pyval)" where
  "lower_keys L d =
     fold (\<lambda>(k, v) m. m(lower L (strip (case k of None \<Rightarrow> [] | Some s \<Rightarrow> s)) \<mapsto> v)) d Map.empty"

text \<open>
  \<^verbatim>\<open>
  def field_from_row(row, key):
      for alias in CSV_FIELD_ALIASES.get(key, []):
          a = alias.lower()
          if a in row: return row.get(a)
      return None
  \<close>
\<close>

fun first_alias :: "pylib \<Rightarrow> (pystr \<rightharpoonup> pyval) \<Rightarrow> pystr list \<Rightarrow> pyval" where
  "first_alias L r [] = PNone"
| "first_alias L r (alias # rest) =
     (case r (lower L alias) of Some v \<Rightarrow> v | None \<Rightarrow> first_alias L r rest)"

definition field_from_row :: "pylib \<Rightarrow> (pystr \<rightharpoonup> pyval) \<Rightarrow> pystr \<Rightarrow> pyval" where
  "field_from_row L r key = first_alias L r (aliases_get key)"

section \<open>Value normalizers\<close>

text \<open>
  \<^verbatim>\<open>
  def is_valid_sku(s):
      s = normalize_str(s)
      if not s: return False, "sku empty"
      for ch in s:
          if not (ch.isalnum() or ch in "-_./"): return False, "sku has invalid characters"
      if len(s) > 64: return False, "sku too long"
      return True, ""
  \<close>
\<close>

definition is_valid_sku :: "pylib \<Rightarrow> pystr \<Rightarrow> bool \<times> pystr" where
  "is_valid_sku L s0 =
     (let s = normalize_str (PText s0) in
      if s = [] then (False, lit ''sku empty'')
      else if \<not> list_all (\<lambda>ch. isalnum L ch \<or> ch \<in> set (lit ''-_./'')) s
        then (False, lit ''sku has invalid characters'')
      else if length s > 64 then (False, lit ''sku too long'')
      else (True, []))"

text \<open>
  \<^verbatim>\<open>
  def is_valid_postcode(pc):
      pc = normalize_str(pc)
      if not pc: return False, "postCode empty"
      if not pc.isdigit() or len(pc) != 4: return False, "postCode must be 4 digits"
      return True, ""
  \<close>
\<close>

definition is_valid_postcode :: "pylib \<Rightarrow> pystr \<Rightarrow> bool \<times> pystr" where
  "is_valid_postcode L pc0 =
     (let pc = normalize_str (PText pc0) in
      if pc = [] then (False, lit ''postCode empty'')
      else if \<not> str_isdigit L pc \<or> length pc \<noteq> 4 then (False, lit ''postCode must be 4 digits'')
      else (True, []))"

text \<open>
  \<^verbatim>\<open>
  def normalize_price(p):
      s = normalize_str(p)
      if s == "": return False, 0.0, "price empty"
      clean = s.replace(",", "")
      for sym in "$\<euro>\<pounds>AUDaud ": clean = clean.replace(sym, "")
      try: val = float(clean)
      except Exception: return False, 0.0, "price not a number"
      if val < 0: return False, 0.0, "price negative"
      if math.isinf(val) or math.isnan(val): return False, 0.0, "price not finite"
      return True, round(val, 2), ""
  \<close>
  The symbols of the loop, as code points: \<open>$\<close>, the euro sign (8364), the pound sign
  (163), \<open>A U D a u d\<close> and the space.
\<close>

definition price_syms :: pystr where
  "price_syms = [36, 8364, 163, 65, 85, 68, 97, 117, 100, 32]"

definition price_clean :: "pystr \<Rightarrow> pystr" where
  "price_clean s = fold (\<lambda>sym clean. replace_char sym [] clean) price_syms (replace_char 44 [] s)"

definition normalize_price :: "pylib \<Rightarrow> pystr \<Rightarrow> bool \<times> pyfloat \<times> pystr" where
  "normalize_price L p =
     (let s = normalize_str (PText p) in
      if s = [] then (False, Finite 0, lit ''price empty'')
      else
        (case py_float L (price_clean s) of
           None \<Rightarrow> (False, Finite 0, lit ''price not a number'')
         | Some val \<Rightarrow>
             if float_lt0 val then (False, Finite 0, lit ''price negative'')
             else if isinf val \<or> isnan val then (False, Finite 0, lit ''price not finite'')
             else (True, py_round2 L val, [])))"

section \<open>Record validator\<close>

record doc =
  sku :: pystr
  postCode :: pystr
  price :: pyfloat

record verr =
  e_row :: nat
  e_context :: pystr
  e_error :: pystr

text \<open>The four locals of a validation run: \<open>valid_docs, errors, warnings, seen_ids\<close>.\<close>

record vstate =
  valid_docs :: "doc list"
  errors :: "verr list"
  warnings :: "pystr list"
  seen_ids :: "pystr set"

definition init_state :: vstate where
  "init_state = \<lparr>valid_docs = [], errors = [], warnings = [], seen_ids = {}\<rparr>"

text \<open>What a validation function returns: \<open>valid_docs, errors, warnings\<close>.\<close>

definition result_of :: "vstate \<Rightarrow> doc list \<times> verr list \<times> pystr list" where
  "result_of st = (valid_docs st, errors st, warnings st)"

text \<open>
  \<^verbatim>\<open>
  def build_doc(raw_sku, raw_pc, price_val):
      return {"sku": normalize_str(raw_sku), "postCode": normalize_str(raw_pc), "price": float(price_val)}
  \<close>
\<close>

definition build_doc :: "pystr \<Rightarrow> pystr \<Rightarrow> pyfloat \<Rightarrow> doc" where
  "build_doc raw_sku raw_pc price_val =
     \<lparr>sku = normalize_str (PText raw_sku), postCode = normalize_str (PText raw_pc), price = price_val\<rparr>"

text \<open>
  The statements that \<open>_validate_from_reader\<close> (lines 102 to 120) and \<open>validate_obj\<close>
  (lines 136 to 154) share, written once: \<open>row_errs\<close> is the list \<open>errs\<close>, \<open>accept_row\<close> is
  the rest.
  \<^verbatim>\<open>
  ok_sku, sku_err = is_valid_sku(raw_sku)
  ok_pc, pc_err = is_valid_postcode(raw_pc)
  ok_price, norm_price, price_err = normalize_price(raw_price)
  errs = []
  if not raw_sku: errs.append("sku missing")
  if not raw_pc: errs.append("postCode missing")
  if not raw_price: errs.append("price missing")
  if raw_sku and not ok_sku: errs.append(sku_err)
  if raw_pc and not ok_pc: errs.append(pc_err)
  if raw_price and not ok_price: errs.append(price_err)
  if errs:
      errors.append({"row": idx, "context": f"sku={raw_sku}, postCode={raw_pc}", "error": "; ".join(errs)})
      continue
  doc_id = f"{raw_sku}|{raw_pc}"
  if doc_id in seen_ids:
      errors.append({"row": idx, "context": f"sku={raw_sku}, postCode={raw_pc}", "error": "Duplicate id within file"})
      continue
  seen_ids.add(doc_id)
  valid_docs.append(build_doc(raw_sku, raw_pc, norm_price))
  \<close>
\<close>

definition row_errs :: "pylib \<Rightarrow> pystr \<Rightarrow> pystr \<Rightarrow> pystr \<Rightarrow> pystr list" where
  "row_errs L raw_sku raw_pc raw_price =
     (let (ok_sku, sku_err) = is_valid_sku L raw_sku;
          (ok_pc, pc_err) = is_valid_postcode L raw_pc;
          (ok_price, norm_price, price_err) = normalize_price L raw_price
      in (if raw_sku = [] then [lit ''sku missing''] else [])
       @ (if raw_pc = [] then [lit ''postCode missing''] else [])
       @ (if raw_price = [] then [lit ''price missing''] else [])
       @ (if raw_sku \<noteq> [] \<and> \<not> ok_sku then [sku_err] else [])
       @ (if raw_pc \<noteq> [] \<and> \<not> ok_pc then [pc_err] else [])
       @ (if raw_price \<noteq> [] \<and> \<not> ok_price then [price_err] else []))"

definition row_context :: "pystr \<Rightarrow> pystr \<Rightarrow> pystr" where
  "row_context raw_sku raw_pc = lit ''sku='' @ raw_sku @ lit '', postCode='' @ raw_pc"

definition doc_id_of :: "pystr \<Rightarrow> pystr \<Rightarrow> pystr" where
  "doc_id_of raw_sku raw_pc = raw_sku @ lit ''|'' @ raw_pc"

definition duplicate_msg :: pystr where
  "duplicate_msg = lit ''Duplicate id within file''"

definition accept_row :: "pylib \<Rightarrow> nat \<Rightarrow> pystr \<Rightarrow> pystr \<Rightarrow> pystr \<Rightarrow> vstate \<Rightarrow> vstate" where
  "accept_row L idx raw_sku raw_pc raw_price st =
     (let norm_price = fst (snd (normalize_price L raw_price));
          errs = row_errs L raw_sku raw_pc raw_price
      in if errs \<noteq> [] then
           st\<lparr>errors := errors st @
             [\<lparr>e_row = idx, e_context = row_context raw_sku raw_pc, e_error = join (lit ''; '') errs\<rparr>]\<rparr>
         else if doc_id_of raw_sku raw_pc \<in> seen_ids st then
           st\<lparr>errors := errors st @
             [\<lparr>e_row = idx, e_context = row_context raw_sku raw_pc, e_error = duplicate_msg\<rparr>]\<rparr>
         else
           st\<lparr>seen_ids := insert (doc_id_of raw_sku raw_pc) (seen_ids st),
              valid_docs := valid_docs st @ [build_doc raw_sku raw_pc norm_price]\<rparr>)"

text \<open>
  The three resolved raw fields of a row, \<open>(raw_sku, raw_pc, raw_price)\<close>, as both loops
  compute them in their first four statements.
\<close>

definition raw_fields :: "pylib \<Rightarrow> rawrow \<Rightarrow> pystr \<times> pystr \<times> pystr" where
  "raw_fields L r0 =
     (let r = lower_keys L r0
      in (normalize_str (field_from_row L r (lit ''sku'')),
          normalize_str (field_from_row L r (lit ''postCode'')),
          normalize_str (field_from_row L r (lit ''price''))))"

text \<open>
  One turn of the loop of \<open>_validate_from_reader\<close>:
  \<^verbatim>\<open>
  for idx, row in enumerate(reader, start=2):
      row = _lower_keys(row)
      raw_sku = normalize_str(field_from_row(row, "sku"))
      raw_pc = normalize_str(field_from_row(row, "postCode"))
      raw_price = normalize_str(field_from_row(row, "price"))
      if not raw_sku and not raw_pc and not raw_price: continue
      ...
  \<close>
\<close>

definition reader_row :: "pylib \<Rightarrow> nat \<Rightarrow> rawrow \<Rightarrow> vstate \<Rightarrow> vstate" where
  "reader_row L idx r0 st =
     (let r = lower_keys L r0;
          raw_sku = normalize_str (field_from_row L r (lit ''sku''));
          raw_pc = normalize_str (field_from_row L r (lit ''postCode''));
          raw_price = normalize_str (field_from_row L r (lit ''price''))
      in if raw_sku = [] \<and> raw_pc = [] \<and> raw_price = [] then st
         else accept_row L idx raw_sku raw_pc raw_price st)"

fun reader_loop :: "pylib \<Rightarrow> nat \<Rightarrow> rawrow list \<Rightarrow> vstate \<Rightarrow> vstate" where
  "reader_loop L idx [] st = st"
| "reader_loop L idx (r # rs) st = reader_loop L (Suc idx) rs (reader_row L idx r st)"

text \<open>
  \<open>_validate_from_reader(reader)\<close>: the reader is its \<open>fieldnames\<close> (\<open>None\<close> for a file with
  no header row) and the rows it yields.
\<close>

definition validate_from_reader ::
  "pylib \<Rightarrow> pystr list option \<Rightarrow> rawrow list \<Rightarrow> doc list \<times> verr list \<times> pystr list" where
  "validate_from_reader L fieldnames rs =
     (let raw_fieldnames = (case fieldnames of None \<Rightarrow> [] | Some hs \<Rightarrow> hs);
          fieldnames_lc = map (\<lambda>h. lower L (strip h)) raw_fieldnames
      in if fieldnames_lc = [] then
           ([], [\<lparr>e_row = 1, e_context = lit ''header'', e_error = lit ''Missing header row''\<rparr>], [])
         else
           (let missing_min =
                  filter (\<lambda>key. \<not> list_ex (\<lambda>alias. lower L alias \<in> set fieldnames_lc) (aliases_get key))
                    [lit ''sku'', lit ''postCode'', lit ''price'']
            in if missing_min \<noteq> [] then
                 ([], [\<lparr>e_row = 1, e_context = lit ''header'',
                        e_error = lit ''Missing required columns: '' @ join (lit '', '') missing_min\<rparr>], [])
               else result_of (reader_loop L 2 rs init_state)))"

text \<open>
  \<open>validate_csv(file_path)\<close>: opening and reading the file either raises (\<open>CsvUnreadable\<close>,
  with the text of the exception) or gives a reader.
\<close>

datatype csv_file = CsvUnreadable pystr | CsvReader "pystr list option" "rawrow list"

fun validate_csv :: "pylib \<Rightarrow> csv_file \<Rightarrow> doc list \<times> verr list \<times> pystr list" where
  "validate_csv L (CsvUnreadable e) =
     ([], [\<lparr>e_row = 0, e_context = lit ''file'', e_error = lit ''Read error: '' @ e\<rparr>], [])"
| "validate_csv L (CsvReader fieldnames rs) = validate_from_reader L fieldnames rs"

text \<open>
  \<open>validate_pasted_csv_text(text)\<close>, from \<open>text.splitlines()\<close>:
  \<^verbatim>\<open>
  lines = [ln for ln in text.splitlines() if ln.strip() != ""]
  if not lines: return [], [{"row": 1, "context": "header", "error": "No content"}], []
  reader = csv.DictReader(lines)
  return _validate_from_reader(reader)
  \<close>
\<close>

definition validate_pasted_csv_text ::
  "pylib \<Rightarrow> pystr list \<Rightarrow> doc list \<times> verr list \<times> pystr list" where
  "validate_pasted_csv_text L splitlines =
     (let lines = filter (\<lambda>ln. strip ln \<noteq> []) splitlines
      in if lines = [] then
           ([], [\<lparr>e_row = 1, e_context = lit ''header'', e_error = lit ''No content''\<rparr>], [])
         else validate_from_reader L (fst (py_dictreader L lines)) (snd (py_dictreader L lines)))"

text \<open>
  \<open>validate_obj(obj, idx_for_report)\<close>, the closure of \<open>validate_json\<close>; it has no test for
  a row whose three fields are all empty.
\<close>

definition validate_obj :: "pylib \<Rightarrow> rawrow \<Rightarrow> nat \<Rightarrow> vstate \<Rightarrow> vstate" where
  "validate_obj L obj idx_for_report st =
     (let obj_lc = lower_keys L obj;
          raw_sku = normalize_str (field_from_row L obj_lc (lit ''sku''));
          raw_pc = normalize_str (field_from_row L obj_lc (lit ''postCode''));
          raw_price = normalize_str (field_from_row L obj_lc (lit ''price''))
      in accept_row L idx_for_report raw_sku raw_pc raw_price st)"

text \<open>
  A JSON file as \<open>validate_json\<close> meets it: what \<open>json.load\<close> gives (a list, whose items
  are dicts or not; another value; a \<open>JSONDecodeError\<close>), and the lines of the file for
  the second pass (blank after \<open>strip\<close>; or what \<open>json.loads\<close> gives: a dict, another
  value, a \<open>JSONDecodeError\<close> with its text), with the text of the exception when
  reading the lines stops with one. In the first pass only \<open>JSONDecodeError\<close> is caught;
  any other exception there leaves \<open>validate_json\<close> and is outside this model.
\<close>

datatype jitem = JDict rawrow | JOther

datatype jload = LoadedList "jitem list" | LoadedOther | LoadFails

datatype jline = LineBlank | LineDict rawrow | LineOther | LineInvalid pystr

record json_file =
  jf_load :: jload
  jf_lines :: "jline list"
  jf_read_error :: "pystr option"

definition add_error :: "nat \<Rightarrow> pystr \<Rightarrow> pystr \<Rightarrow> vstate \<Rightarrow> vstate" where
  "add_error r c e st = st\<lparr>errors := errors st @ [\<lparr>e_row = r, e_context = c, e_error = e\<rparr>]\<rparr>"

fun array_loop :: "pylib \<Rightarrow> nat \<Rightarrow> jitem list \<Rightarrow> vstate \<Rightarrow> vstate" where
  "array_loop L i [] st = st"
| "array_loop L i (JOther # rest) st =
     array_loop L (Suc i) rest (add_error i [] (lit ''Each item must be a JSON object'') st)"
| "array_loop L i (JDict obj # rest) st = array_loop L (Suc i) rest (validate_obj L obj i st)"

fun lines_loop :: "pylib \<Rightarrow> nat \<Rightarrow> jline list \<Rightarrow> vstate \<Rightarrow> vstate" where
  "lines_loop L i [] st = st"
| "lines_loop L i (LineBlank # rest) st = lines_loop L (Suc i) rest st"
| "lines_loop L i (LineOther # rest) st =
     lines_loop L (Suc i) rest (add_error i [] (lit ''Line is not a JSON object'') st)"
| "lines_loop L i (LineDict obj # rest) st = lines_loop L (Suc i) rest (validate_obj L obj i st)"
| "lines_loop L i (LineInvalid e # rest) st =
     lines_loop L (Suc i) rest (add_error i [] (lit ''Invalid JSON: '' @ e) st)"

definition ndjson_pass :: "pylib \<Rightarrow> json_file \<Rightarrow> vstate \<Rightarrow> vstate" where
  "ndjson_pass L f st =
     (let st' = lines_loop L 1 (jf_lines f) st
      in case jf_read_error f of
           None \<Rightarrow> st'
         | Some e \<Rightarrow> add_error 0 [] (lit ''Error reading file line-by-line: '' @ e) st')"

definition validate_json :: "pylib \<Rightarrow> json_file \<Rightarrow> doc list \<times> verr list \<times> pystr list" where
  "validate_json L f =
     (case jf_load f of
        LoadedList data \<Rightarrow> result_of (array_loop L 1 data init_state)
      | LoadedOther \<Rightarrow>
          result_of (ndjson_pass L f
            (init_state\<lparr>warnings := [lit ''Top-level JSON is not an array; falling back to NDJSON parser.'']\<rparr>))
      | LoadFails \<Rightarrow>
          result_of (ndjson_pass L f
            (init_state\<lparr>warnings := [lit ''JSON is not an array; attempting NDJSON (one JSON object per line).'']\<rparr>)))"

section \<open>Export\<close>





definition UNK :: pystr where
  "UNK = lit ''UNK''"


text \<open>
  \<^verbatim>\<open>
  csv_rows = [{"postCode": d["postCode"].lstrip("0") if d["postCode"] else "", "sku": d["sku"], "price": d["price"]} for d in self.last_valid_docs]
  json_rows = [{"postCode": d["postCode"], "sku": d["sku"], "price": d["price"]} for d in self.last_valid_docs]
  \<close>
\<close>

definition csv_rows_of :: "doc list \<Rightarrow> doc list" where
  "csv_rows_of docs =
     map (\<lambda>d. \<lparr>sku = sku d,
                postCode = (if postCode d \<noteq> [] then lstrip_chars (lit ''0'') (postCode d) else []),
                price = price d\<rparr>) docs"

definition json_rows_of :: "doc list \<Rightarrow> doc list" where
  "json_rows_of docs = map (\<lambda>d. \<lparr>sku = sku d, postCode = postCode d, price = price d\<rparr>) docs"





text \<open>\<open>xs[start:stop]\<close> for indices that are not negative.\<close>

definition slice :: "'a list \<Rightarrow> nat \<Rightarrow> nat \<Rightarrow> 'a list" where
  "slice xs start stop = drop start (take stop xs)"

text \<open>\<open>str(n)\<close> of a natural number, and the format \<open>{n:03d}\<close>.\<close>

fun str_nat :: "nat \<Rightarrow> pystr" where
  "str_nat n = (if n < 10 then [48 + n] else str_nat (n div 10) @ [48 + n mod 10])"

declare str_nat.simps [simp del]

definition format_03d :: "nat \<Rightarrow> pystr" where
  "format_03d n = replicate (3 - length (str_nat n)) 48 @ str_nat n"

definition batch_id :: "nat \<Rightarrow> pystr" where
  "batch_id i = lit ''part'' @ format_03d (i + 1)"

text \<open>The number that a string of decimal digits denotes, to state what a label shows.\<close>

definition digits_value :: "pystr \<Rightarrow> nat" where
  "digits_value s = foldl (\<lambda>a c. 10 * a + (c - 48)) 0 s"

text \<open>
  \<^verbatim>\<open>
  def _export_by_rows(self, folder, base, csv_rows, json_rows, chunk_size):
      total = len(csv_rows)
      if total == 0: return
      ts = self._ts(); parts = (total + chunk_size - 1) // chunk_size
      fields = ["postCode", "sku", "price"]
      for i in range(parts):
          start, end = i * chunk_size, min((i+1) * chunk_size, total)
          batch_id = f"part{(i+1):03d}"
          ... csv_rows[start:end] ... json_rows[start:end] ...
  \<close>
  \<open>row_batches\<close> is the sequence of \<open>(batch_id, csv_rows[start:end], json_rows[start:end])\<close>
  of the loop. \<open>export_files\<close> passes a chunk size of at least 1; with 0 the division
  raises.
\<close>

definition row_batches :: "nat \<Rightarrow> doc list \<Rightarrow> doc list \<Rightarrow> (pystr \<times> doc list \<times> doc list) list" where
  "row_batches chunk_size csv_rows json_rows =
     (let total = length csv_rows;
          parts = (total + chunk_size - 1) div chunk_size
      in map (\<lambda>i. let start = i * chunk_size; stop = min ((i + 1) * chunk_size) total
                  in (batch_id i, slice csv_rows start stop, slice json_rows start stop))
           [0..<parts])"


text \<open>
  \<^verbatim>\<open>
  def key_for_json(d):
      if key_lower in ("postcode", "post_code", "post code"): return d.get("postCode", "") or "UNK"
      if key_lower == "sku": return d.get("sku", "") or "UNK"
      if key_lower == "price": return str(d.get("price", "")) or "UNK"
      return str(d.get(key_lower, "") or "UNK")
  \<close>
  \<open>d\<close> has exactly the keys \<open>postCode\<close>, \<open>sku\<close> and \<open>price\<close>; in the last line only the key
  \<open>postCode\<close> is left that \<open>d\<close> can have.
\<close>

definition key_for_json :: "pylib \<Rightarrow> pystr \<Rightarrow> doc \<Rightarrow> pystr" where
  "key_for_json L key_lower d =
     (if key_lower \<in> set [lit ''postcode'', lit ''post_code'', lit ''post code''] then
        (if postCode d \<noteq> [] then postCode d else UNK)
      else if key_lower = lit ''sku'' then (if sku d \<noteq> [] then sku d else UNK)
      else if key_lower = lit ''price'' then
        (if py_str_float L (price d) \<noteq> [] then py_str_float L (price d) else UNK)
      else if key_lower = lit ''postCode'' \<and> postCode d \<noteq> [] then postCode d
      else UNK)"

text \<open>\<open>g = (key_for_json(j) or "UNK").strip() or "UNK"\<close>\<close>

definition group_key :: "pylib \<Rightarrow> pystr \<Rightarrow> doc \<Rightarrow> pystr" where
  "group_key L key_lower j =
     (let k = (if key_for_json L key_lower j \<noteq> [] then key_for_json L key_lower j else UNK)
      in if strip k \<noteq> [] then strip k else UNK)"

text \<open>\<open>groups[g].append(x)\<close> on a \<open>defaultdict(list)\<close>, which keeps the keys in first-seen order.\<close>

fun group_append :: "pystr \<Rightarrow> 'a \<Rightarrow> (pystr \<times> 'a list) list \<Rightarrow> (pystr \<times> 'a list) list" where
  "group_append g x [] = [(g, [x])]"
| "group_append g x ((h, xs) # rest) =
     (if h = g then (h, xs @ [x]) # rest else (h, xs) # group_append g x rest)"

text \<open>
  \<^verbatim>\<open>
  groups_json, groups_csv = defaultdict(list), defaultdict(list)
  for j, c in zip(json_rows, csv_rows):
      g = (key_for_json(j) or "UNK").strip() or "UNK"
      groups_json[g].append(j); groups_csv[g].append(c)
  \<close>
\<close>

definition build_groups ::
  "pylib \<Rightarrow> pystr \<Rightarrow> doc list \<Rightarrow> doc list \<Rightarrow> (pystr \<times> doc list) list \<times> (pystr \<times> doc list) list" where
  "build_groups L key_lower json_rows csv_rows =
     fold (\<lambda>(j, c) (groups_json, groups_csv).
             (group_append (group_key L key_lower j) j groups_json,
              group_append (group_key L key_lower j) c groups_csv))
       (zip json_rows csv_rows) ([], [])"

text \<open>
  \<^verbatim>\<open>
  def _sanitize_group(self, s):
      out = "".join(c if c.isalnum() or c in ("-", "_", ".") else "_" for c in s)
      return out[:80] if out else "UNK"
  \<close>
\<close>

definition sanitize_group :: "pylib \<Rightarrow> pystr \<Rightarrow> pystr" where
  "sanitize_group L s =
     (let out = map (\<lambda>c. if isalnum L c \<or> c \<in> set [45, 95, 46] then c else 95) s
      in if out \<noteq> [] then take 80 out else UNK)"



text \<open>
  \<^verbatim>\<open>
  def _export_by_group(self, folder, base, json_rows, csv_rows, group_col):
      ts = self._ts(); key_lower = (group_col or "").lower()
      ...
      for gval, rows_csv in groups_csv.items():
          safe_group = self._sanitize_group(gval)
          ... batch="group", group=safe_group ... rows_csv ... groups_json[gval] ...
  \<close>
  \<open>group_batches\<close> is the sequence of \<open>(safe_group, rows_csv, rows_json)\<close> of the loop;
  \<open>groups_get\<close> is \<open>groups_json[gval]\<close>, the list under a key, empty for a key that is
  not there.
\<close>

definition groups_get :: "(pystr \<times> 'a list) list \<Rightarrow> pystr \<Rightarrow> 'a list" where
  "groups_get groups gval = (case map_of groups gval of None \<Rightarrow> [] | Some rs \<Rightarrow> rs)"

definition group_batches :: "pylib \<Rightarrow> pystr \<Rightarrow> doc list \<Rightarrow> doc list \<Rightarrow> (pystr \<times> doc list \<times> doc list) list" where
  "group_batches L group_col json_rows csv_rows =
     (let key_lower = lower L group_col;
          (groups_json, groups_csv) = build_groups L key_lower json_rows csv_rows
      in map (\<lambda>(gval, rows_csv). (sanitize_group L gval, rows_csv, groups_get groups_json gval))
           groups_csv)"






section \<open>A library for the examples\<close>

text \<open>
  The examples below run the functions on concrete inputs, so they need a concrete
  library. \<open>example_lib\<close> gives the CPython results on what the examples use and nothing
  more: \<open>float\<close> of a plain decimal integer literal of at most 15 digits, with an optional
  minus sign (such a value is a double, \<open>-0\<close> gives the negative zero, and \<open>round(x, 2)\<close>
  returns it unchanged); \<open>str\<close> of such a float that is not below zero (\<open>"10.0"\<close>, \<open>"-0.0"\<close>); \<open>format\<close> of a pattern made of plain \<open>{name}\<close>
  fields and other characters. The examples use code points below 256 only, so the three
  Unicode fields are never consulted, and no example pastes text.
\<close>

definition ascii_digits :: "pystr \<Rightarrow> bool" where
  "ascii_digits s = (s \<noteq> [] \<and> length s \<le> 15 \<and> list_all (\<lambda>c. 48 \<le> c \<and> c \<le> 57) s)"

definition example_float :: "pystr \<Rightarrow> pyfloat option" where
  "example_float s =
     (if ascii_digits s then Some (Finite (of_nat (digits_value s)))
      else if s \<noteq> [] \<and> hd s = 45 \<and> ascii_digits (tl s) then
        Some (if digits_value (tl s) = 0 then NegZero else Finite (- of_nat (digits_value (tl s))))
      else None)"

fun example_str_float :: "pyfloat \<Rightarrow> pystr" where
  "example_str_float (Finite q) = str_nat (nat \<lfloor>q\<rfloor>) @ lit ''.0''"
| "example_str_float NegZero = lit ''-0.0''"
| "example_str_float PosInf = lit ''inf''"
| "example_str_float NegInf = lit ''-inf''"
| "example_str_float NaN = lit ''nan''"

function example_format :: "pystr \<Rightarrow> (pystr \<times> pystr) list \<Rightarrow> pystr option" where
  "example_format [] vals = Some []"
| "example_format (c # cs) vals =
     (if c = 123 then
        (case map_of vals (takeWhile (\<lambda>x. x \<noteq> 125) cs) of
           None \<Rightarrow> None
         | Some v \<Rightarrow> map_option (\<lambda>r. v @ r) (example_format (drop 1 (dropWhile (\<lambda>x. x \<noteq> 125) cs)) vals))
      else if c = 125 then None
      else map_option (\<lambda>r. c # r) (example_format cs vals))"
  by pat_completeness auto
termination
proof (relation "measure (\<lambda>(p, vals). length p)")
  show "wf (measure (\<lambda>(p, vals). length p))"
    by simp
next
  fix c :: pychar and cs :: pystr and vals :: "(pystr \<times> pystr) list" and v :: pystr
  have "length (dropWhile (\<lambda>x. x \<noteq> 125) cs) \<le> length cs"
    by (rule length_dropWhile_le)
  then show "((drop 1 (dropWhile (\<lambda>x. x \<noteq> 125) cs), vals), (c # cs, vals)) \<in> measure (\<lambda>(p, vals). length p)"
    by simp
next
  fix c :: pychar and cs :: pystr and vals :: "(pystr \<times> pystr) list"
  show "((cs, vals), (c # cs, vals)) \<in> measure (\<lambda>(p, vals). length p)"
    by simp
qed

definition example_lib :: pylib where
  "example_lib =
     \<lparr>py_float = example_float, py_round2 = (\<lambda>x. x), py_str_float = example_str_float,
      py_format = example_format, uni_isalnum = (\<lambda>c. False), uni_isdigit = (\<lambda>c. False),
      uni_lower = (\<lambda>s. s), py_dictreader = (\<lambda>lines. (None, []))\<rparr>"

text \<open>Three validated records and an application state for the examples.\<close>

definition example_docs :: "doc list" where
  "example_docs =
     [\<lparr>sku = lit ''A1'', postCode = lit ''2000'', price = Finite 10\<rparr>,
      \<lparr>sku = lit ''B/2'', postCode = lit ''0200'', price = Finite 5\<rparr>,
      \<lparr>sku = lit ''A1'', postCode = lit ''3000'', price = Finite 7\<rparr>]"



text \<open>
  Rows for the examples, as dicts of a JSON array or of a \<open>csv.DictReader\<close>: a row with
  a price that is not a number, the same row with the price 10, a row whose sku is the four
  characters \<open>" "a\<close> (in JSON \<open>"\" \"a"\<close>, in a CSV file the quoted field \<open>""" ""a"\<close>), and a
  row with the sku \<open>a\<close> and the same postCode.
\<close>

definition example_row :: "pystr \<Rightarrow> pystr \<Rightarrow> pystr \<Rightarrow> rawrow" where
  "example_row s p c =
     [(Some (lit ''sku''), PText s), (Some (lit ''postCode''), PText p), (Some (lit ''price''), PText c)]"

definition example_bad_row :: rawrow where
  "example_bad_row = example_row (lit ''A1'') (lit ''2000'') (lit ''abc'')"

definition example_good_row :: rawrow where
  "example_good_row = example_row (lit ''A1'') (lit ''2000'') (lit ''10'')"

definition example_quoted_row :: rawrow where
  "example_quoted_row = example_row [dq, 32, dq, 97] (lit ''2000'') (lit ''1'')"

definition example_plain_row :: rawrow where
  "example_plain_row = example_row (lit ''a'') (lit ''2000'') (lit ''2'')"

text \<open>
  For the statements about validation errors: the error that a row appends when its list
  \<open>errs\<close> is not empty, and the test that a message starts with \<open>s\<close> or \<open>p\<close>, as every
  message of a field does (\<open>sku ...\<close>, \<open>postCode ...\<close>, \<open>price ...\<close>).
\<close>

definition field_error :: "pylib \<Rightarrow> nat \<Rightarrow> pystr \<Rightarrow> pystr \<Rightarrow> pystr \<Rightarrow> verr" where
  "field_error L idx raw_sku raw_pc raw_price =
     \<lparr>e_row = idx, e_context = row_context raw_sku raw_pc,
      e_error = join (lit ''; '') (row_errs L raw_sku raw_pc raw_price)\<rparr>"

definition msg_start :: "pystr \<Rightarrow> bool" where
  "msg_start e = (e \<noteq> [] \<and> (hd e = 115 \<or> hd e = 112))"

text \<open>A record whose sku is \<open>caf\<close> followed by the letter e with an acute accent (code point 233).\<close>

definition example_cafe_doc :: doc where
  "example_cafe_doc = \<lparr>sku = [99, 97, 102, 233], postCode = lit ''2000'', price = Finite 3\<rparr>"

text \<open>
  For the statements about stripping: a string is \<open>trimmed\<close> when it neither starts nor
  ends with whitespace, and \<open>unquoted\<close> when it neither starts nor ends with a double quote.
\<close>

definition trimmed :: "pystr \<Rightarrow> bool" where
  "trimmed y = (y = [] \<or> (\<not> isspace (hd y) \<and> \<not> isspace (last y)))"

definition unquoted :: "pystr \<Rightarrow> bool" where
  "unquoted y = (y = [] \<or> (hd y \<noteq> dq \<and> last y \<noteq> dq))"








section \<open>Facts about stripping\<close>

lemma lstrip_with_pad:
  assumes "list_all P w" and "y = [] \<or> \<not> P (hd y)"
  shows "lstrip_with P (w @ y) = y"
proof -
  have "dropWhile P (w @ y) = dropWhile P y"
    using assms(1) by (simp add: list_all_iff)
  also have "\<dots> = y"
    using assms(2) by (cases y) auto
  finally show ?thesis by (simp add: lstrip_with_def)
qed

lemma rstrip_with_pad:
  assumes "list_all P w" and "y = [] \<or> \<not> P (last y)"
  shows "rstrip_with P (y @ w) = y"
proof -
  have "list_all P (rev w)"
    using assms(1) by (simp add: list_all_iff)
  moreover have "rev y = [] \<or> \<not> P (hd (rev y))"
    using assms(2) by (cases "y = []") (simp_all add: hd_rev)
  ultimately have "lstrip_with P (rev w @ rev y) = rev y"
    by (rule lstrip_with_pad)
  then show ?thesis by (simp add: rstrip_with_def lstrip_with_def)
qed

lemma strip_with_pad:
  assumes "list_all P w1" and "list_all P w2"
    and "y = [] \<or> (\<not> P (hd y) \<and> \<not> P (last y))"
  shows "strip_with P (w1 @ y @ w2) = y"
proof (cases "y = []")
  case True
  have "list_all P (w1 @ w2)"
    using assms(1,2) by simp
  then have "lstrip_with P ((w1 @ w2) @ []) = []"
    by (rule lstrip_with_pad) simp
  then show ?thesis
    using True by (simp add: strip_with_def rstrip_with_def)
next
  case False
  have "y @ w2 = [] \<or> \<not> P (hd (y @ w2))"
    using False assms(3) by simp
  with assms(1) have "lstrip_with P (w1 @ (y @ w2)) = y @ w2"
    by (rule lstrip_with_pad)
  moreover have "rstrip_with P (y @ w2) = y"
    using assms(2,3) False by (intro rstrip_with_pad) auto
  ultimately show ?thesis by (simp add: strip_with_def)
qed

lemma isspace_dq: "\<not> isspace dq"
  by (simp add: isspace_def dq_def)

lemma strip_with_decompose:
  "\<exists>w1 w2. s = w1 @ strip_with P s @ w2 \<and> list_all P w1 \<and> list_all P w2
     \<and> (strip_with P s = [] \<or> (\<not> P (hd (strip_with P s)) \<and> \<not> P (last (strip_with P s))))"
proof -
  define u where "u = dropWhile P s"
  define y where "y = rev (dropWhile P (rev u))"
  have s: "s = takeWhile P s @ u"
    by (simp add: u_def)
  have "rev (takeWhile P (rev u) @ dropWhile P (rev u)) = rev (rev u)"
    by (simp only: takeWhile_dropWhile_id)
  then have u: "u = y @ rev (takeWhile P (rev u))"
    by (simp only: rev_append rev_rev_ident y_def)
  have y: "strip_with P s = y"
    by (simp add: strip_with_def lstrip_with_def rstrip_with_def y_def u_def)
  have w1: "list_all P (takeWhile P s)"
    by (auto simp: list_all_iff dest: set_takeWhileD)
  have w2: "list_all P (rev (takeWhile P (rev u)))"
    by (auto simp: list_all_iff dest: set_takeWhileD)
  have ends: "y = [] \<or> (\<not> P (hd y) \<and> \<not> P (last y))"
  proof (cases "y = []")
    case True
    then show ?thesis ..
  next
    case False
    then have ne: "dropWhile P (rev u) \<noteq> []"
      by (simp add: y_def)
    then have "\<not> P (hd (dropWhile P (rev u)))"
      by (rule hd_dropWhile)
    then have l: "\<not> P (last y)"
      using ne by (simp add: y_def last_rev)
    have "u \<noteq> []"
      using False u by auto
    then have "\<not> P (hd u)"
      unfolding u_def by (rule hd_dropWhile)
    moreover have "hd u = hd y"
      using False u by (metis hd_append2)
    ultimately show ?thesis
      using l by simp
  qed
  from s u have "s = takeWhile P s @ y @ rev (takeWhile P (rev u))"
    by simp
  with w1 w2 ends show ?thesis
    unfolding y by blast
qed

lemma strip_with_iff:
  "strip_with P s = y \<longleftrightarrow>
     (\<exists>w1 w2. s = w1 @ y @ w2 \<and> list_all P w1 \<and> list_all P w2
        \<and> (y = [] \<or> (\<not> P (hd y) \<and> \<not> P (last y))))"
proof
  assume "strip_with P s = y"
  with strip_with_decompose [of s P] show "\<exists>w1 w2. s = w1 @ y @ w2 \<and> list_all P w1 \<and> list_all P w2
        \<and> (y = [] \<or> (\<not> P (hd y) \<and> \<not> P (last y)))"
    by auto
next
  assume "\<exists>w1 w2. s = w1 @ y @ w2 \<and> list_all P w1 \<and> list_all P w2
        \<and> (y = [] \<or> (\<not> P (hd y) \<and> \<not> P (last y)))"
  then show "strip_with P s = y"
    using strip_with_pad by blast
qed

section \<open>C5: what \<open>normalize_str\<close> strips\<close>

text \<open>
  C5, as the claim states it, fails: \<open>strip('"')\<close> removes every leading and trailing
  double quote, not one layer. The text \<open>""x""\<close> normalizes to \<open>x\<close>, not to \<open>"x"\<close>.
\<close>

theorem normalize_str_one_layer_counterexample:
  "normalize_str (PText [dq, dq, 120, dq, dq]) = [120] \<and> normalize_str (PText [dq, dq, 120, dq, dq]) \<noteq> [dq, 120, dq]"
  by (simp add: strip_def strip_chars_def strip_with_def lstrip_with_def rstrip_with_def
      isspace_def dq_def)

text \<open>
  C5 (amended), for every scalar: \<open>None\<close> normalizes to the empty string. A number
  normalizes to \<open>r\<close> exactly when its text is \<open>r\<close> between two runs of whitespace and \<open>r\<close> is
  trimmed. Any other value normalizes to \<open>r\<close> exactly when its text is, from the outside
  in: whitespace around a trimmed middle; in that middle, double quotes (any number of them,
  so every layer) around an unquoted middle; in that one, whitespace around \<open>r\<close>, and \<open>r\<close> is
  trimmed. So the text is trimmed, loses all its leading and trailing double quotes, and
  what remains is trimmed again.
\<close>

theorem normalize_str_strips_all_quotes:
  "normalize_str PNone = []
   \<and> (normalize_str (PText t) = r \<longleftrightarrow>
        (\<exists>w1 q1 v1 v2 q2 w2.
            t = w1 @ q1 @ v1 @ r @ v2 @ q2 @ w2
          \<and> list_all isspace w1 \<and> list_all isspace w2 \<and> trimmed (q1 @ v1 @ r @ v2 @ q2)
          \<and> list_all (\<lambda>c. c = dq) q1 \<and> list_all (\<lambda>c. c = dq) q2 \<and> unquoted (v1 @ r @ v2)
          \<and> list_all isspace v1 \<and> list_all isspace v2 \<and> trimmed r))
   \<and> (normalize_str (PNum t) = r \<longleftrightarrow>
        (\<exists>w1 w2. t = w1 @ r @ w2 \<and> list_all isspace w1 \<and> list_all isspace w2 \<and> trimmed r))"
proof -
  have num: "normalize_str (PNum t) = r \<longleftrightarrow>
        (\<exists>w1 w2. t = w1 @ r @ w2 \<and> list_all isspace w1 \<and> list_all isspace w2 \<and> trimmed r)"
    by (simp add: strip_def strip_with_iff trimmed_def)
  have a: "strip t = a \<longleftrightarrow>
      (\<exists>w1 w2. t = w1 @ a @ w2 \<and> list_all isspace w1 \<and> list_all isspace w2 \<and> trimmed a)" for a
    by (simp add: strip_def strip_with_iff trimmed_def)
  have b: "strip_chars [dq] a = b \<longleftrightarrow>
      (\<exists>q1 q2. a = q1 @ b @ q2 \<and> list_all (\<lambda>c. c = dq) q1 \<and> list_all (\<lambda>c. c = dq) q2 \<and> unquoted b)" for a b
    by (simp add: strip_chars_def strip_with_iff unquoted_def)
  have c: "strip b = r \<longleftrightarrow>
      (\<exists>v1 v2. b = v1 @ r @ v2 \<and> list_all isspace v1 \<and> list_all isspace v2 \<and> trimmed r)" for b
    by (simp add: strip_def strip_with_iff trimmed_def)
  have text_case: "normalize_str (PText t) = r \<longleftrightarrow>
        (\<exists>w1 q1 v1 v2 q2 w2.
            t = w1 @ q1 @ v1 @ r @ v2 @ q2 @ w2
          \<and> list_all isspace w1 \<and> list_all isspace w2 \<and> trimmed (q1 @ v1 @ r @ v2 @ q2)
          \<and> list_all (\<lambda>c. c = dq) q1 \<and> list_all (\<lambda>c. c = dq) q2 \<and> unquoted (v1 @ r @ v2)
          \<and> list_all isspace v1 \<and> list_all isspace v2 \<and> trimmed r)"
    (is "?l \<longleftrightarrow> ?r")
  proof
    assume ?l
    then have r: "strip (strip_chars [dq] (strip t)) = r"
      by simp
    obtain w1 w2 where 1: "t = w1 @ strip t @ w2" "list_all isspace w1" "list_all isspace w2"
      "trimmed (strip t)"
      using a [of "strip t"] by auto
    obtain q1 q2 where 2: "strip t = q1 @ strip_chars [dq] (strip t) @ q2" "list_all (\<lambda>c. c = dq) q1"
      "list_all (\<lambda>c. c = dq) q2" "unquoted (strip_chars [dq] (strip t))"
      using b [of "strip t" "strip_chars [dq] (strip t)"] by auto
    obtain v1 v2 where 3: "strip_chars [dq] (strip t) = v1 @ r @ v2" "list_all isspace v1"
      "list_all isspace v2" "trimmed r"
      using c [of "strip_chars [dq] (strip t)"] r by auto
    have "t = w1 @ q1 @ v1 @ r @ v2 @ q2 @ w2"
      using 1(1) 2(1) 3(1) by simp
    moreover have "trimmed (q1 @ v1 @ r @ v2 @ q2)"
      using 1(4) 2(1) 3(1) by simp
    moreover have "unquoted (v1 @ r @ v2)"
      using 2(4) 3(1) by simp
    ultimately show ?r
      using 1(2,3) 2(2,3) 3(2,3,4) by blast
  next
    assume ?r
    then obtain w1 q1 v1 v2 q2 w2 where h: "t = w1 @ q1 @ v1 @ r @ v2 @ q2 @ w2"
      "list_all isspace w1" "list_all isspace w2" "trimmed (q1 @ v1 @ r @ v2 @ q2)"
      "list_all (\<lambda>c. c = dq) q1" "list_all (\<lambda>c. c = dq) q2" "unquoted (v1 @ r @ v2)"
      "list_all isspace v1" "list_all isspace v2" "trimmed r"
      by blast
    have "t = w1 @ (q1 @ v1 @ r @ v2 @ q2) @ w2"
      using h(1) by simp
    with h(2,3,4) have s1: "strip t = q1 @ v1 @ r @ v2 @ q2"
      using a [of "q1 @ v1 @ r @ v2 @ q2"] by blast
    have "q1 @ v1 @ r @ v2 @ q2 = q1 @ (v1 @ r @ v2) @ q2"
      by simp
    with h(5,6,7) have s2: "strip_chars [dq] (q1 @ v1 @ r @ v2 @ q2) = v1 @ r @ v2"
      using b [of "q1 @ v1 @ r @ v2 @ q2" "v1 @ r @ v2"] by blast
    have s3: "strip (v1 @ r @ v2) = r"
      using c [of "v1 @ r @ v2"] h(8,9,10) by blast
    show ?l
      by (simp add: s1 s2 s3)
  qed
  from num text_case show ?thesis
    by simp
qed

theorem normalize_str_strips_all_quotes_witness:
  "normalize_str (PText [dq, 32, 120, 32, dq]) = [120]
   \<and> normalize_str (PText [32, dq, 32, dq, 97, 9]) = [dq, 97]
   \<and> normalize_str (PNum [32, 49, 50]) = [49, 50]"
proof -
  have "\<exists>w1 q1 v1 v2 q2 w2.
            [dq, 32, 120, 32, dq] = w1 @ q1 @ v1 @ [120] @ v2 @ q2 @ w2
          \<and> list_all isspace w1 \<and> list_all isspace w2 \<and> trimmed (q1 @ v1 @ [120] @ v2 @ q2)
          \<and> list_all (\<lambda>c. c = dq) q1 \<and> list_all (\<lambda>c. c = dq) q2 \<and> unquoted (v1 @ [120] @ v2)
          \<and> list_all isspace v1 \<and> list_all isspace v2 \<and> trimmed [120]"
    by (rule exI [of _ "[]"], rule exI [of _ "[dq]"], rule exI [of _ "[32]"], rule exI [of _ "[32]"],
        rule exI [of _ "[dq]"], rule exI [of _ "[]"])
      (simp add: trimmed_def unquoted_def isspace_def dq_def)
  with normalize_str_strips_all_quotes [of "[dq, 32, 120, 32, dq]" "[120]"]
  have a: "normalize_str (PText [dq, 32, 120, 32, dq]) = [120]"
    by blast
  have "\<exists>w1 q1 v1 v2 q2 w2.
            [32, dq, 32, dq, 97, 9] = w1 @ q1 @ v1 @ [dq, 97] @ v2 @ q2 @ w2
          \<and> list_all isspace w1 \<and> list_all isspace w2 \<and> trimmed (q1 @ v1 @ [dq, 97] @ v2 @ q2)
          \<and> list_all (\<lambda>c. c = dq) q1 \<and> list_all (\<lambda>c. c = dq) q2 \<and> unquoted (v1 @ [dq, 97] @ v2)
          \<and> list_all isspace v1 \<and> list_all isspace v2 \<and> trimmed [dq, 97]"
    by (rule exI [of _ "[32]"], rule exI [of _ "[dq]"], rule exI [of _ "[32]"], rule exI [of _ "[]"],
        rule exI [of _ "[]"], rule exI [of _ "[9]"])
      (simp add: trimmed_def unquoted_def isspace_def dq_def)
  with normalize_str_strips_all_quotes [of "[32, dq, 32, dq, 97, 9]" "[dq, 97]"]
  have b: "normalize_str (PText [32, dq, 32, dq, 97, 9]) = [dq, 97]"
    by blast
  have "\<exists>w1 w2. [32, 49, 50] = w1 @ [49, 50] @ w2 \<and> list_all isspace w1 \<and> list_all isspace w2
      \<and> trimmed [49, 50]"
    by (rule exI [of _ "[32]"], rule exI [of _ "[]"]) (simp add: trimmed_def isspace_def)
  with normalize_str_strips_all_quotes [of "[32, 49, 50]" "[49, 50]"]
  have c: "normalize_str (PNum [32, 49, 50]) = [49, 50]"
    by blast
  from a b c show ?thesis
    by simp
qed

section \<open>C6: the aliases of the sku field\<close>

lemma alias_lits:
  "lit ''sku'' = [115, 107, 117]"
  "lit ''productcode'' = [112, 114, 111, 100, 117, 99, 116, 99, 111, 100, 101]"
  "lit ''productCode'' = [112, 114, 111, 100, 117, 99, 116, 67, 111, 100, 101]"
  "lit ''product_code'' = [112, 114, 111, 100, 117, 99, 116, 95, 99, 111, 100, 101]"
  "lit ''product id'' = [112, 114, 111, 100, 117, 99, 116, 32, 105, 100]"
  "lit ''productid'' = [112, 114, 111, 100, 117, 99, 116, 105, 100]"
  by (simp_all add: lit_def)

lemma first_alias_find:
  "first_alias L r al =
     (case find (\<lambda>a. r a \<noteq> None) (map (lower L) al) of None \<Rightarrow> PNone | Some a \<Rightarrow> the (r a))"
  by (induction al) (auto split: option.splits)

lemma sku_aliases_lower:
  "map (lower L) (aliases_get (lit ''sku'')) =
     [lit ''sku'', lit ''productcode'', lit ''productcode'', lit ''product_code'', lit ''product id'',
      lit ''productid'']"
  unfolding aliases_get_def CSV_FIELD_ALIASES_def alias_lits
  by (simp add: lower_def)

lemma find_twice: "find P (x # y # y # zs) = find P (x # y # zs)"
  by simp

lemma lower_keys_single: "lower_keys L [(Some h, v)] = [lower L (strip h) \<mapsto> v]"
  by (simp add: lower_keys_def)

text \<open>
  C6, as the claim states it, fails: the list of the source has \<open>product id\<close> where the
  claim has \<open>product code\<close>. A row whose only key is \<open>product code\<close> resolves to nothing,
  and a row whose only key is \<open>product id\<close>, a header outside the claim's list, resolves.
\<close>

theorem field_from_row_product_code_counterexample:
  "field_from_row example_lib (lower_keys example_lib [(Some (lit ''product code''), PText (lit ''X''))])
       (lit ''sku'') = PNone
   \<and> field_from_row example_lib (lower_keys example_lib [(Some (lit ''product id''), PText (lit ''X''))])
       (lit ''sku'') = PText (lit ''X'')"
  by (simp add: field_from_row_def aliases_get_def CSV_FIELD_ALIASES_def lower_keys_def lower_def lit_def
      strip_def strip_with_def lstrip_with_def rstrip_with_def isspace_def)

text \<open>
  C6 (amended): the sku field resolves through exactly the lowered aliases \<open>sku\<close>,
  \<open>productcode\<close>, \<open>product_code\<close>, \<open>product id\<close>, \<open>productid\<close>. On a row with lowered keys
  the result is the value under the first of these that is a key of the row, and \<open>None\<close>
  when none is. A row with the single header \<open>h\<close> resolves to its value exactly when \<open>h\<close>,
  trimmed and lowered, is one of the five.
\<close>

theorem field_from_row_sku_aliases:
  "field_from_row L r (lit ''sku'') =
     (case find (\<lambda>a. r a \<noteq> None)
             [lit ''sku'', lit ''productcode'', lit ''product_code'', lit ''product id'', lit ''productid''] of
        None \<Rightarrow> PNone
      | Some a \<Rightarrow> the (r a))
   \<and> field_from_row L (lower_keys L [(Some h, v)]) (lit ''sku'') =
       (if lower L (strip h) \<in> set [lit ''sku'', lit ''productcode'', lit ''product_code'', lit ''product id'',
                                     lit ''productid'']
        then v else PNone)"
proof -
  have a: "field_from_row L r (lit ''sku'') =
     (case find (\<lambda>a. r a \<noteq> None)
             [lit ''sku'', lit ''productcode'', lit ''product_code'', lit ''product id'', lit ''productid''] of
        None \<Rightarrow> PNone
      | Some a \<Rightarrow> the (r a))" for r
    unfolding field_from_row_def first_alias_find sku_aliases_lower find_twice ..
  have b: "(case find (\<lambda>a. [k \<mapsto> v] a \<noteq> None) al of None \<Rightarrow> PNone | Some a \<Rightarrow> the ([k \<mapsto> v] a)) =
       (if k \<in> set al then v else PNone)" for k :: pystr and al
    by (induction al) auto
  show ?thesis
    unfolding a lower_keys_single b by simp
qed

theorem field_from_row_sku_aliases_witness:
  "field_from_row example_lib (lower_keys example_lib [(Some (lit ''  Product_Code ''), PText (lit ''X''))])
     (lit ''sku'') = PText (lit ''X'')"
  using field_from_row_sku_aliases [of example_lib Map.empty "lit ''  Product_Code ''" "PText (lit ''X'')"]
  by (simp add: lower_def lit_def strip_def strip_with_def lstrip_with_def rstrip_with_def isspace_def)

section \<open>C4: when \<open>normalize_price\<close> fails\<close>

lemma replace_char_filter: "replace_char c [] s = filter (\<lambda>x. x \<noteq> c) s"
  by (induction s) (simp_all add: replace_char_def)

lemma fold_filter_syms:
  "fold (\<lambda>sym clean. filter (\<lambda>x. x \<noteq> sym) clean) syms s = filter (\<lambda>c. c \<notin> set syms) s"
proof (induction syms arbitrary: s)
  case Nil
  then show ?case by simp
next
  case (Cons a syms)
  have "filter (\<lambda>c. c \<notin> set syms) (filter (\<lambda>x. x \<noteq> a) s) = filter (\<lambda>c. c \<notin> set (a # syms)) s"
    by (induction s) auto
  with Cons show ?case by simp
qed

lemma price_clean_filter:
  "price_clean s = filter (\<lambda>c. c \<notin> set (lit '',$AUDaud '' @ [8364, 163])) s"
proof -
  have "price_clean s = filter (\<lambda>c. c \<notin> set price_syms) (filter (\<lambda>x. x \<noteq> 44) s)"
    unfolding price_clean_def replace_char_filter by (rule fold_filter_syms)
  also have "\<dots> = filter (\<lambda>c. c \<notin> set (44 # price_syms)) s"
    by (induction s) auto
  also have "set (44 # price_syms) = set (lit '',$AUDaud '' @ [8364, 163])"
    by (simp add: price_syms_def lit_def) blast
  finally show ?thesis .
qed

text \<open>
  C4: \<open>normalize_price\<close> fails exactly when the normalized input is empty, or \<open>float\<close>
  raises on the input with every comma, \<open>$\<close>, euro sign, pound sign, \<open>A\<close>, \<open>U\<close>, \<open>D\<close>,
  \<open>a\<close>, \<open>u\<close>, \<open>d\<close> and space removed wherever it stands, or the parsed value is
  negative, or it is infinite or a NaN. When it succeeds the result is \<open>True\<close>, the parsed
  value rounded to two decimal places, and the empty reason.
\<close>

theorem normalize_price_fails_exactly:
  "(\<not> fst (normalize_price L p)) =
     (normalize_str (PText p) = []
      \<or> (case py_float L (filter (\<lambda>c. c \<notin> set (lit '',$AUDaud '' @ [8364, 163])) (normalize_str (PText p))) of
            None \<Rightarrow> True
          | Some val \<Rightarrow> float_lt0 val \<or> isinf val \<or> isnan val))
   \<and> (fst (normalize_price L p) \<longrightarrow>
        (\<exists>val. py_float L (filter (\<lambda>c. c \<notin> set (lit '',$AUDaud '' @ [8364, 163])) (normalize_str (PText p))) = Some val
            \<and> normalize_price L p = (True, py_round2 L val, [])))"
  unfolding normalize_price_def price_clean_filter Let_def
  by (simp split: option.splits)

theorem normalize_price_fails_exactly_witness:
  "\<not> fst (normalize_price example_lib (lit ''-$1,000 AUD''))
   \<and> normalize_price example_lib (lit ''$1,000 AUD'') = (True, Finite 1000, [])"
proof -
  have n1: "normalize_str (PText (lit ''-$1,000 AUD'')) = lit ''-$1,000 AUD''"
    and n2: "normalize_str (PText (lit ''$1,000 AUD'')) = lit ''$1,000 AUD''"
    by (simp_all add: lit_def strip_def strip_chars_def strip_with_def lstrip_with_def rstrip_with_def
        isspace_def dq_def)
  have f1: "filter (\<lambda>c. c \<notin> set (lit '',$AUDaud '' @ [8364, 163])) (lit ''-$1,000 AUD'') = lit ''-1000''"
    and f2: "filter (\<lambda>c. c \<notin> set (lit '',$AUDaud '' @ [8364, 163])) (lit ''$1,000 AUD'') = lit ''1000''"
    by (simp_all add: lit_def)
  have p1: "py_float example_lib (lit ''-1000'') = Some (Finite (- 1000))"
    and p2: "py_float example_lib (lit ''1000'') = Some (Finite 1000)"
    by (simp_all add: example_lib_def example_float_def ascii_digits_def digits_value_def lit_def)
  have r: "py_round2 example_lib (Finite 1000) = Finite 1000"
    by (simp add: example_lib_def)
  from normalize_price_fails_exactly [of example_lib "lit ''-$1,000 AUD''"]
  have a: "\<not> fst (normalize_price example_lib (lit ''-$1,000 AUD''))"
    unfolding n1 f1 p1 by simp
  from normalize_price_fails_exactly [of example_lib "lit ''$1,000 AUD''"]
  have b: "normalize_price example_lib (lit ''$1,000 AUD'') = (True, Finite 1000, [])"
    unfolding n2 f2 p2 using r by (auto simp: lit_def)
  from a b show ?thesis ..
qed

section \<open>C10: a postcode of zeros in the CSV rows\<close>

lemma lstrip_all: "set s \<subseteq> set cs \<Longrightarrow> lstrip_chars cs s = []"
  by (auto simp: lstrip_chars_def lstrip_with_def)

text \<open>
  C10: a record whose postCode is made of \<open>0\<close> characters only has an empty postCode in
  the rows of the CSV export, and its postCode unchanged in the rows of the JSON export.
\<close>

theorem csv_postcode_all_zeros:
  assumes "i < length docs" and "set (postCode (docs ! i)) \<subseteq> {48}"
  shows "postCode (csv_rows_of docs ! i) = [] \<and> postCode (json_rows_of docs ! i) = postCode (docs ! i)"
proof -
  have "lstrip_chars (lit ''0'') (postCode (docs ! i)) = []"
    using assms(2) by (intro lstrip_all) (simp add: lit_def)
  then show ?thesis
    using assms(1) by (simp add: csv_rows_of_def json_rows_of_def)
qed

theorem csv_postcode_all_zeros_witness:
  "postCode (csv_rows_of [\<lparr>sku = lit ''A1'', postCode = lit ''0000'', price = Finite 5\<rparr>] ! 0) = []
   \<and> postCode (json_rows_of [\<lparr>sku = lit ''A1'', postCode = lit ''0000'', price = Finite 5\<rparr>] ! 0) = lit ''0000''"
  using csv_postcode_all_zeros [of 0 "[\<lparr>sku = lit ''A1'', postCode = lit ''0000'', price = Finite 5\<rparr>]"]
  by (simp add: lit_def)

section \<open>C7: batches of a fixed number of rows\<close>

lemma slice_take: "slice xs a (min b (length xs)) = drop a (take b xs)"
  by (simp add: slice_def min_def)

lemma concat_slices:
  "concat (map (\<lambda>i. slice xs (i * k) (min ((i + 1) * k) (length xs))) [0..<m]) = take (m * k) xs"
proof (induction m)
  case 0
  then show ?case by simp
next
  case (Suc m)
  have "take (m * k) xs @ drop (m * k) (take ((m + 1) * k) xs) = take ((m + 1) * k) xs"
  proof -
    have "take (m * k) (take ((m + 1) * k) xs) = take (m * k) xs"
      by (simp add: min_def)
    then show ?thesis
      using append_take_drop_id [of "m * k" "take ((m + 1) * k) xs"] by simp
  qed
  with Suc show ?case
    by (simp add: slice_take)
qed

lemma parts_cover:
  fixes n k :: nat
  assumes "0 < k"
  shows "n \<le> ((n + k - 1) div k) * k"
proof -
  have "(n + k - 1) div k * k + (n + k - 1) mod k = n + k - 1"
    by simp
  moreover have "(n + k - 1) mod k < k"
    using assms by simp
  ultimately show ?thesis by linarith
qed

lemma parts_pred:
  fixes n k :: nat
  assumes "0 < k" and "0 < n"
  shows "((n + k - 1) div k - 1) * k < n"
proof -
  obtain m where n: "n = Suc m"
    using assms(2) by (cases n) auto
  have "(m + k) div k = m div k + 1"
    using assms(1) by simp
  moreover have "m div k * k \<le> m"
    by simp
  ultimately show ?thesis
    by (simp add: n less_Suc_eq_le)
qed

lemma str_nat_small:
  assumes "n < 1000"
  shows "format_03d n = [48 + n div 100, 48 + n div 10 mod 10, 48 + n mod 10]"
proof -
  consider "n < 10" | "10 \<le> n" "n < 100" | "100 \<le> n"
    by linarith
  then show ?thesis
  proof cases
    case 1
    then show ?thesis
      by (simp add: format_03d_def str_nat.simps [of n] numeral_2_eq_2)
  next
    case 2
    then have "n div 10 < 10" by simp
    with 2 show ?thesis
      by (simp add: format_03d_def str_nat.simps [of n] str_nat.simps [of "n div 10"])
  next
    case 3
    with assms have a: "\<not> n div 10 < 10" and b: "n div 10 div 10 < 10"
      by simp_all
    have c: "n div 10 div 10 = n div 100"
      by (simp add: div_mult2_eq)
    from 3 a b show ?thesis
      by (simp add: format_03d_def str_nat.simps [of n] str_nat.simps [of "n div 10"]
          str_nat.simps [of "n div 100"] c)
  qed
qed

lemma digits_value_snoc: "digits_value (ds @ [c]) = 10 * digits_value ds + (c - 48)"
  by (simp add: digits_value_def)

lemma str_nat_facts:
  "str_nat n \<noteq> [] \<and> list_all (\<lambda>c. 48 \<le> c \<and> c \<le> 57) (str_nat n) \<and> digits_value (str_nat n) = n
   \<and> (0 < n \<longrightarrow> hd (str_nat n) \<noteq> 48)"
proof (induction n rule: str_nat.induct)
  case (1 n)
  show ?case
  proof (cases "n < 10")
    case True
    then show ?thesis
      by (simp add: str_nat.simps [of n] digits_value_def)
  next
    case False
    with 1 have ih: "str_nat (n div 10) \<noteq> []"
      "list_all (\<lambda>c. 48 \<le> c \<and> c \<le> 57) (str_nat (n div 10))"
      "digits_value (str_nat (n div 10)) = n div 10" "hd (str_nat (n div 10)) \<noteq> 48"
      by simp_all
    have s: "str_nat n = str_nat (n div 10) @ [48 + n mod 10]"
      using False by (simp add: str_nat.simps [of n])
    have "n mod 10 < 10"
      by simp
    then have d: "48 + n mod 10 \<le> 57"
      by linarith
    show ?thesis
      using ih d by (simp add: s digits_value_snoc)
  qed
qed

lemma digits_value_zeros: "digits_value (replicate k 48 @ ds) = digits_value ds"
proof -
  have "foldl (\<lambda>a c. 10 * a + (c - 48)) 0 (replicate k 48) = (0::nat)"
    by (induction k) simp_all
  then show ?thesis
    by (simp add: digits_value_def)
qed

lemma format_03d_facts:
  assumes "0 < n"
  shows "list_all (\<lambda>c. 48 \<le> c \<and> c \<le> 57) (format_03d n) \<and> digits_value (format_03d n) = n
    \<and> 3 \<le> length (format_03d n) \<and> (3 < length (format_03d n) \<longrightarrow> hd (format_03d n) \<noteq> 48)"
proof -
  have f: "str_nat n \<noteq> []" "list_all (\<lambda>c. 48 \<le> c \<and> c \<le> 57) (str_nat n)" "digits_value (str_nat n) = n"
    "hd (str_nat n) \<noteq> 48"
    using str_nat_facts [of n] assms by simp_all
  have a: "list_all (\<lambda>c. 48 \<le> c \<and> c \<le> 57) (format_03d n)"
    using f(2) by (auto simp: format_03d_def list_all_iff)
  have b: "digits_value (format_03d n) = n"
    by (simp add: format_03d_def digits_value_zeros f(3))
  have c: "3 \<le> length (format_03d n)"
    by (simp add: format_03d_def)
  have d: "hd (format_03d n) \<noteq> 48" if "3 < length (format_03d n)"
  proof -
    from that have "3 - length (str_nat n) = 0"
      by (simp add: format_03d_def)
    then have "format_03d n = str_nat n"
      by (simp add: format_03d_def)
    then show ?thesis
      using f(4) by simp
  qed
  from a b c d show ?thesis
    by blast
qed

lemma row_batches_length:
  "length (row_batches k xs ys) = (length xs + k - 1) div k"
  by (simp add: row_batches_def Let_def)

lemma row_batches_nth:
  assumes "i < length (row_batches k xs ys)"
  shows "row_batches k xs ys ! i =
    (batch_id i, slice xs (i * k) (min ((i + 1) * k) (length xs)), slice ys (i * k) (min ((i + 1) * k) (length xs)))"
  using assms by (simp add: row_batches_def Let_def)

text \<open>
  C7, as the claim states it, fails from the thousandth batch on: with 1000 records and one
  row per file, the last batch has the label \<open>part1000\<close>, the word \<open>part\<close> and four digits.
\<close>

theorem row_batches_label_counterexample:
  "fst (row_batches 1 (replicate 1000 example_cafe_doc) (replicate 1000 example_cafe_doc) ! 999) = lit ''part1000''
   \<and> length (fst (row_batches 1 (replicate 1000 example_cafe_doc) (replicate 1000 example_cafe_doc) ! 999)) = 8"
proof -
  have "batch_id 999 = lit ''part1000''"
    by (simp add: batch_id_def format_03d_def str_nat.simps lit_def)
  then show ?thesis
    by (simp add: row_batches_def Let_def lit_def)
qed

text \<open>
  C7 (amended): for \<open>n \<ge> 1\<close> records and a chunk size \<open>k \<ge> 1\<close>, the loop of
  \<open>_export_by_rows\<close> makes \<open>ceil(n / k)\<close> batches; every batch but the last has exactly \<open>k\<close> CSV
  rows and \<open>k\<close> JSON rows; the batches in order concatenate to the CSV rows and to the JSON
  rows; batch \<open>i\<close> (counted from 0) has the label \<open>part\<close> followed by the decimal digits of
  \<open>i + 1\<close>, padded with zeros on the left to three digits and not beyond: at least three
  digits, no leading zero when there are more than three, and below 1000 exactly the three
  digits of \<open>i + 1\<close>, so the first label is \<open>part001\<close>.
\<close>

theorem row_batches_partition:
  assumes "1 \<le> length xs" and "1 \<le> k" and "length ys = length xs"
  shows "int (length (row_batches k xs ys)) = \<lceil>real (length xs) / real k\<rceil>
    \<and> (\<forall>i. i + 1 < length (row_batches k xs ys) \<longrightarrow>
          length (fst (snd (row_batches k xs ys ! i))) = k \<and> length (snd (snd (row_batches k xs ys ! i))) = k)
    \<and> concat (map (\<lambda>b. fst (snd b)) (row_batches k xs ys)) = xs
    \<and> concat (map (\<lambda>b. snd (snd b)) (row_batches k xs ys)) = ys
    \<and> (\<forall>i < length (row_batches k xs ys). \<exists>ds.
          fst (row_batches k xs ys ! i) = lit ''part'' @ ds \<and> ds = format_03d (i + 1)
          \<and> list_all (\<lambda>c. 48 \<le> c \<and> c \<le> 57) ds \<and> digits_value ds = i + 1
          \<and> 3 \<le> length ds \<and> (3 < length ds \<longrightarrow> hd ds \<noteq> 48)
          \<and> (i + 1 < 1000 \<longrightarrow> ds = [48 + (i + 1) div 100, 48 + (i + 1) div 10 mod 10, 48 + (i + 1) mod 10]))"
proof -
  define n where "n = length xs"
  define parts where "parts = (n + k - 1) div k"
  have k: "0 < k" and n: "0 < n"
    using assms by (auto simp: n_def)
  have len: "length (row_batches k xs ys) = parts"
    by (simp add: row_batches_length parts_def n_def)
  have cover: "n \<le> parts * k"
    unfolding parts_def using k by (rule parts_cover)
  have pred: "(parts - 1) * k < n"
    unfolding parts_def using k n by (rule parts_pred)
  have "real (parts - 1) * real k < real n"
    using pred by (metis of_nat_less_iff of_nat_mult)
  moreover have "real n \<le> real parts * real k"
    using cover by (metis of_nat_le_iff of_nat_mult)
  moreover have "0 < parts"
    using cover n by (cases parts) auto
  ultimately have "\<lceil>real n / real k\<rceil> = int parts"
    using k by (intro ceiling_unique) (simp_all add: field_simps)
  then have c1: "int (length (row_batches k xs ys)) = \<lceil>real (length xs) / real k\<rceil>"
    by (simp add: len n_def)
  have c2: "length (fst (snd (row_batches k xs ys ! i))) = k \<and> length (snd (snd (row_batches k xs ys ! i))) = k"
    if "i + 1 < length (row_batches k xs ys)" for i
  proof -
    from that have i: "i + 1 \<le> parts - 1"
      by (simp add: len)
    then have "(i + 1) * k \<le> (parts - 1) * k"
      by (rule mult_le_mono1)
    with pred have "(i + 1) * k \<le> n"
      by linarith
    moreover have "i < length (row_batches k xs ys)"
      using that by simp
    ultimately show ?thesis
      using assms(3) by (simp add: row_batches_nth slice_def n_def min_def)
  qed
  have m1: "map (\<lambda>b. fst (snd b)) (row_batches k xs ys) =
        map (\<lambda>i. slice xs (i * k) (min ((i + 1) * k) (length xs))) [0..<parts]"
    and m2: "map (\<lambda>b. snd (snd b)) (row_batches k xs ys) =
        map (\<lambda>i. slice ys (i * k) (min ((i + 1) * k) (length ys))) [0..<parts]"
    by (simp_all add: row_batches_def Let_def parts_def n_def assms(3))
  have "concat (map (\<lambda>b. fst (snd b)) (row_batches k xs ys)) = take (parts * k) xs"
    by (simp only: m1 concat_slices)
  then have c3: "concat (map (\<lambda>b. fst (snd b)) (row_batches k xs ys)) = xs"
    using cover by (simp add: n_def)
  have "concat (map (\<lambda>b. snd (snd b)) (row_batches k xs ys)) = take (parts * k) ys"
    by (simp only: m2 concat_slices)
  then have c4: "concat (map (\<lambda>b. snd (snd b)) (row_batches k xs ys)) = ys"
    using cover by (simp add: n_def assms(3))
  have c5: "\<exists>ds. fst (row_batches k xs ys ! i) = lit ''part'' @ ds \<and> ds = format_03d (i + 1)
          \<and> list_all (\<lambda>c. 48 \<le> c \<and> c \<le> 57) ds \<and> digits_value ds = i + 1
          \<and> 3 \<le> length ds \<and> (3 < length ds \<longrightarrow> hd ds \<noteq> 48)
          \<and> (i + 1 < 1000 \<longrightarrow> ds = [48 + (i + 1) div 100, 48 + (i + 1) div 10 mod 10, 48 + (i + 1) mod 10])"
    if "i < length (row_batches k xs ys)" for i
  proof -
    have "fst (row_batches k xs ys ! i) = lit ''part'' @ format_03d (i + 1)"
      using that by (simp add: row_batches_nth batch_id_def)
    moreover have "i + 1 < 1000 \<longrightarrow> format_03d (i + 1) =
        [48 + (i + 1) div 100, 48 + (i + 1) div 10 mod 10, 48 + (i + 1) mod 10]"
      using str_nat_small [of "i + 1"] by blast
    moreover have "0 < i + 1"
      by simp
    note format_03d_facts [OF this]
    ultimately show ?thesis
      by blast
  qed
  from c1 c2 c3 c4 c5 show ?thesis
    by blast
qed

theorem row_batches_partition_witness:
  "int (length (row_batches 2 (csv_rows_of example_docs) (json_rows_of example_docs))) = 2
   \<and> length (fst (snd (row_batches 2 (csv_rows_of example_docs) (json_rows_of example_docs) ! 0))) = 2
   \<and> concat (map (\<lambda>b. snd (snd b)) (row_batches 2 (csv_rows_of example_docs) (json_rows_of example_docs)))
       = json_rows_of example_docs
   \<and> fst (row_batches 2 (csv_rows_of example_docs) (json_rows_of example_docs) ! 0) = lit ''part001''"
proof -
  let ?bs = "row_batches 2 (csv_rows_of example_docs) (json_rows_of example_docs)"
  have l: "length (csv_rows_of example_docs) = 3" and l': "length (json_rows_of example_docs) = 3"
    by (simp_all add: csv_rows_of_def json_rows_of_def example_docs_def)
  have "1 \<le> length (csv_rows_of example_docs)" and "(1::nat) \<le> 2"
    and "length (json_rows_of example_docs) = length (csv_rows_of example_docs)"
    by (simp_all add: l l')
  note t = row_batches_partition [OF this]
  from t have n: "int (length ?bs) = 2"
    by (simp add: l)
  from t n have a: "length (fst (snd (?bs ! 0))) = 2"
    by simp
  from t have c: "concat (map (\<lambda>b. snd (snd b)) ?bs) = json_rows_of example_docs"
    by blast
  from t have "\<forall>i < length ?bs. \<exists>ds. fst (?bs ! i) = lit ''part'' @ ds
      \<and> (i + 1 < 1000 \<longrightarrow> ds = [48 + (i + 1) div 100, 48 + (i + 1) div 10 mod 10, 48 + (i + 1) mod 10])"
    by blast
  moreover have "0 < length ?bs"
    using n by simp
  ultimately obtain ds where "fst (?bs ! 0) = lit ''part'' @ ds"
    and "0 + 1 < (1000::nat) \<longrightarrow> ds = [48 + (0 + 1) div 100, 48 + (0 + 1) div 10 mod 10, 48 + (0 + 1) mod 10]"
    by blast
  then have d: "fst (?bs ! 0) = lit ''part001''"
    by (simp add: lit_def)
  from n a c d show ?thesis
    by simp
qed

section \<open>Facts about writing batches\<close>






section \<open>C3: the errors file\<close>








section \<open>Facts about the row checks\<close>

lemma hd_lits:
  "hd (lit ''sku missing'') = 115" "hd (lit ''postCode missing'') = 112" "hd (lit ''price missing'') = 112"
  "hd (lit ''sku empty'') = 115" "hd (lit ''sku has invalid characters'') = 115" "hd (lit ''sku too long'') = 115"
  "hd (lit ''postCode empty'') = 112" "hd (lit ''postCode must be 4 digits'') = 112"
  "hd (lit ''price empty'') = 112" "hd (lit ''price not a number'') = 112" "hd (lit ''price negative'') = 112"
  "hd (lit ''price not finite'') = 112" "hd duplicate_msg = 68"
  by (simp_all add: lit_def duplicate_msg_def)

lemma lit_Cons_nonempty [simp]: "lit (c # cs) \<noteq> []"
  by (simp add: lit_def)

lemma is_valid_sku_msg: "\<not> fst (is_valid_sku L s) \<Longrightarrow> msg_start (snd (is_valid_sku L s))"
  by (auto simp: is_valid_sku_def Let_def msg_start_def hd_lits split: if_splits)

lemma is_valid_postcode_msg: "\<not> fst (is_valid_postcode L s) \<Longrightarrow> msg_start (snd (is_valid_postcode L s))"
  by (auto simp: is_valid_postcode_def Let_def msg_start_def hd_lits split: if_splits)

lemma normalize_price_msg: "\<not> fst (normalize_price L s) \<Longrightarrow> msg_start (snd (snd (normalize_price L s)))"
  by (auto simp: normalize_price_def Let_def msg_start_def hd_lits split: if_splits option.splits)

lemma row_errs_alt:
  "row_errs L s p c =
     (if s = [] then [lit ''sku missing''] else [])
   @ (if p = [] then [lit ''postCode missing''] else [])
   @ (if c = [] then [lit ''price missing''] else [])
   @ (if s \<noteq> [] \<and> \<not> fst (is_valid_sku L s) then [snd (is_valid_sku L s)] else [])
   @ (if p \<noteq> [] \<and> \<not> fst (is_valid_postcode L p) then [snd (is_valid_postcode L p)] else [])
   @ (if c \<noteq> [] \<and> \<not> fst (normalize_price L c) then [snd (snd (normalize_price L c))] else [])"
  by (simp add: row_errs_def split: prod.splits)

lemma row_errs_msgs:
  assumes "e \<in> set (row_errs L s p c)"
  shows "msg_start e"
proof -
  have "msg_start (lit ''sku missing'')" "msg_start (lit ''postCode missing'')"
    "msg_start (lit ''price missing'')"
    by (simp_all add: msg_start_def hd_lits)
  with assms is_valid_sku_msg [of L s] is_valid_postcode_msg [of L p] normalize_price_msg [of L c]
  show ?thesis
    unfolding row_errs_alt by (auto split: if_splits)
qed

lemma join_start: "errs \<noteq> [] \<Longrightarrow> msg_start (hd errs) \<Longrightarrow> msg_start (join sep errs)"
  by (induction sep errs rule: join.induct) (auto simp: msg_start_def)

lemma join_not_duplicate:
  assumes "row_errs L s p c \<noteq> []"
  shows "join sep (row_errs L s p c) \<noteq> duplicate_msg"
proof -
  have "hd (row_errs L s p c) \<in> set (row_errs L s p c)"
    using assms by simp
  then have "msg_start (hd (row_errs L s p c))"
    by (rule row_errs_msgs)
  with assms have "msg_start (join sep (row_errs L s p c))"
    by (rule join_start)
  then show ?thesis
    by (auto simp: msg_start_def hd_lits)
qed

lemma validate_obj_alt:
  "raw_fields L r = (s, p, c) \<Longrightarrow> validate_obj L r i st = accept_row L i s p c st"
  by (simp add: validate_obj_def raw_fields_def Let_def)

lemma reader_row_alt:
  "raw_fields L r = (s, p, c) \<Longrightarrow>
     reader_row L i r st = (if s = [] \<and> p = [] \<and> c = [] then st else accept_row L i s p c st)"
  by (simp add: reader_row_def raw_fields_def Let_def)

lemma accept_row_invalid:
  "row_errs L s p c \<noteq> [] \<Longrightarrow>
     accept_row L i s p c st = st\<lparr>errors := errors st @ [field_error L i s p c]\<rparr>"
  by (simp add: accept_row_def field_error_def Let_def)

lemma accept_row_valid:
  "row_errs L s p c = [] \<Longrightarrow> doc_id_of s p \<notin> seen_ids st \<Longrightarrow>
     accept_row L i s p c st =
       st\<lparr>seen_ids := insert (doc_id_of s p) (seen_ids st),
          valid_docs := valid_docs st @ [build_doc s p (fst (snd (normalize_price L c)))]\<rparr>"
  by (simp add: accept_row_def Let_def)

lemma row_errs_empty_fields: "row_errs L s p c = [] \<Longrightarrow> s \<noteq> [] \<and> p \<noteq> [] \<and> c \<noteq> []"
  by (auto simp: row_errs_alt split: if_splits)

section \<open>Running the validators on the example rows\<close>

lemma strip_lits:
  "strip (lit ''sku'') = lit ''sku''" "strip (lit ''postCode'') = lit ''postCode''"
  "strip (lit ''price'') = lit ''price''"
  by (simp_all add: lit_def strip_def strip_with_def lstrip_with_def rstrip_with_def isspace_def)

lemma lower_header_lits:
  "lower L (lit ''sku'') = lit ''sku''" "lower L (lit ''postCode'') = lit ''postcode''"
  "lower L (lit ''postcode'') = lit ''postcode''" "lower L (lit ''price'') = lit ''price''"
  by (simp_all add: lit_def lower_def)

lemma header_lits_distinct:
  "lit ''sku'' \<noteq> lit ''postcode''" "lit ''sku'' \<noteq> lit ''price''" "lit ''postcode'' \<noteq> lit ''price''"
  "lit ''postcode'' \<noteq> lit ''sku''" "lit ''price'' \<noteq> lit ''sku''" "lit ''price'' \<noteq> lit ''postcode''"
  by (simp_all add: lit_def)

lemma aliases_heads:
  "\<exists>rest. aliases_get (lit ''sku'') = lit ''sku'' # rest"
  "\<exists>rest. aliases_get (lit ''postCode'') = lit ''postcode'' # rest"
  "\<exists>rest. aliases_get (lit ''price'') = lit ''price'' # rest"
  by (simp_all add: aliases_get_def CSV_FIELD_ALIASES_def lit_def)

lemma raw_fields_example_row:
  "raw_fields L (example_row s p c) =
     (normalize_str (PText s), normalize_str (PText p), normalize_str (PText c))"
proof -
  have lk: "lower_keys L (example_row s p c) =
      [lit ''sku'' \<mapsto> PText s, lit ''postcode'' \<mapsto> PText p, lit ''price'' \<mapsto> PText c]"
    by (simp add: lower_keys_def example_row_def strip_lits lower_header_lits)
  obtain r1 r2 r3 where al: "aliases_get (lit ''sku'') = lit ''sku'' # r1"
    "aliases_get (lit ''postCode'') = lit ''postcode'' # r2" "aliases_get (lit ''price'') = lit ''price'' # r3"
    using aliases_heads by blast
  show ?thesis
    by (simp add: raw_fields_def lk field_from_row_def al lower_header_lits header_lits_distinct)
qed

lemma header_ok:
  "validate_from_reader L (Some [lit ''sku'', lit ''postCode'', lit ''price'']) rs =
     result_of (reader_loop L 2 rs init_state)"
proof -
  obtain r1 r2 r3 where al: "aliases_get (lit ''sku'') = lit ''sku'' # r1"
    "aliases_get (lit ''postCode'') = lit ''postcode'' # r2" "aliases_get (lit ''price'') = lit ''price'' # r3"
    using aliases_heads by blast
  show ?thesis
    by (simp add: validate_from_reader_def Let_def strip_lits lower_header_lits al)
qed

lemmas eval_str = lit_def strip_def strip_chars_def strip_with_def lstrip_with_def rstrip_with_def
  isspace_def dq_def

lemmas eval_checks = row_errs_alt is_valid_sku_def is_valid_postcode_def normalize_price_def
  str_isdigit_def isdigit_def isalnum_def price_clean_def price_syms_def replace_char_def
  example_lib_def example_float_def ascii_digits_def digits_value_def Let_def

lemma example_rows_fields:
  "raw_fields example_lib example_bad_row = (lit ''A1'', lit ''2000'', lit ''abc'')"
  "raw_fields example_lib example_good_row = (lit ''A1'', lit ''2000'', lit ''10'')"
  "raw_fields example_lib example_quoted_row = ([dq, 97], lit ''2000'', lit ''1'')"
  "raw_fields example_lib example_plain_row = (lit ''a'', lit ''2000'', lit ''2'')"
  by (simp_all add: example_bad_row_def example_good_row_def example_quoted_row_def
      example_plain_row_def raw_fields_example_row eval_str)

lemma example_rows_errs:
  "row_errs example_lib (lit ''A1'') (lit ''2000'') (lit ''abc'') = [lit ''price not a number'']"
  "row_errs example_lib (lit ''A1'') (lit ''2000'') (lit ''10'') = []"
  "row_errs example_lib [dq, 97] (lit ''2000'') (lit ''1'') = []"
  "row_errs example_lib (lit ''a'') (lit ''2000'') (lit ''2'') = []"
  by (simp_all add: eval_checks eval_str)

lemma example_rows_prices:
  "fst (snd (normalize_price example_lib (lit ''10''))) = Finite 10"
  "fst (snd (normalize_price example_lib (lit ''1''))) = Finite 1"
  "fst (snd (normalize_price example_lib (lit ''2''))) = Finite 2"
  by (simp_all add: eval_checks eval_str)

lemma example_rows_docs:
  "build_doc (lit ''A1'') (lit ''2000'') x = \<lparr>sku = lit ''A1'', postCode = lit ''2000'', price = x\<rparr>"
  "build_doc [dq, 97] (lit ''2000'') x = \<lparr>sku = lit ''a'', postCode = lit ''2000'', price = x\<rparr>"
  "build_doc (lit ''a'') (lit ''2000'') x = \<lparr>sku = lit ''a'', postCode = lit ''2000'', price = x\<rparr>"
  by (simp_all add: build_doc_def eval_str)

lemma example_rows_ids:
  "doc_id_of (lit ''a'') (lit ''2000'') \<noteq> doc_id_of [dq, 97] (lit ''2000'')"
  by (simp add: doc_id_of_def eval_str)

section \<open>C9: rows that fail field validation and the set of seen ids\<close>

text \<open>
  C9: a row whose resolved fields \<open>(s, p, c)\<close> fail validation (its list \<open>errs\<close> is not empty)
  leaves \<open>seen_ids\<close> and \<open>valid_docs\<close> as they were, in the JSON path and in the CSV path; it
  appends one error, with the joined field messages (in the CSV path none when the three
  fields are all empty), and that message is never "Duplicate id within file". So two
  identical such rows give two field errors, and a later row that passes field validation,
  with an id not seen before the failing row (its sku and postCode may be those of the
  failing row), is appended to the records.
\<close>

theorem invalid_row_not_marked_seen:
  assumes "raw_fields L r = (s, p, c)" and "row_errs L s p c \<noteq> []"
  shows "seen_ids (validate_obj L r i st) = seen_ids st
    \<and> valid_docs (validate_obj L r i st) = valid_docs st
    \<and> errors (validate_obj L r i st) = errors st @ [field_error L i s p c]
    \<and> seen_ids (reader_row L i r st) = seen_ids st
    \<and> valid_docs (reader_row L i r st) = valid_docs st
    \<and> errors (reader_row L i r st) =
          errors st @ (if s = [] \<and> p = [] \<and> c = [] then [] else [field_error L i s p c])
    \<and> e_error (field_error L i s p c) \<noteq> duplicate_msg
    \<and> errors (array_loop L i [JDict r, JDict r] st) =
          errors st @ [field_error L i s p c, field_error L (Suc i) s p c]
    \<and> errors (reader_loop L i [r, r] st) =
          errors st @ (if s = [] \<and> p = [] \<and> c = [] then []
                       else [field_error L i s p c, field_error L (Suc i) s p c])
    \<and> (\<forall>r2 s2 p2 c2 j. raw_fields L r2 = (s2, p2, c2) \<longrightarrow> row_errs L s2 p2 c2 = [] \<longrightarrow>
           doc_id_of s2 p2 \<notin> seen_ids st \<longrightarrow>
           valid_docs (validate_obj L r2 j (validate_obj L r i st)) =
             valid_docs st @ [build_doc s2 p2 (fst (snd (normalize_price L c2)))]
           \<and> valid_docs (reader_row L j r2 (reader_row L i r st)) =
             valid_docs st @ [build_doc s2 p2 (fst (snd (normalize_price L c2)))])"
proof -
  have vo: "validate_obj L r i st = st\<lparr>errors := errors st @ [field_error L i s p c]\<rparr>" for i st
    using assms by (simp add: validate_obj_alt accept_row_invalid)
  have rr: "reader_row L i r st =
      (if s = [] \<and> p = [] \<and> c = [] then st else st\<lparr>errors := errors st @ [field_error L i s p c]\<rparr>)" for i st
    using assms by (simp add: reader_row_alt accept_row_invalid)
  have nd: "e_error (field_error L i s p c) \<noteq> duplicate_msg"
    using assms(2) by (simp add: field_error_def join_not_duplicate)
  have later: "valid_docs (validate_obj L r2 j (validate_obj L r i st)) =
             valid_docs st @ [build_doc s2 p2 (fst (snd (normalize_price L c2)))]
           \<and> valid_docs (reader_row L j r2 (reader_row L i r st)) =
             valid_docs st @ [build_doc s2 p2 (fst (snd (normalize_price L c2)))]"
    if "raw_fields L r2 = (s2, p2, c2)" and "row_errs L s2 p2 c2 = []" and "doc_id_of s2 p2 \<notin> seen_ids st"
    for r2 s2 p2 c2 j
  proof -
    from that(2) have ne: "s2 \<noteq> []"
      using row_errs_empty_fields by blast
    show ?thesis
      using that ne by (simp add: vo rr validate_obj_alt reader_row_alt accept_row_valid)
  qed
  show ?thesis
    using later nd by (simp add: vo rr)
qed

text \<open>The witness of C9: a row with the price \<open>abc\<close>, then the same row with the price 10.\<close>

theorem invalid_row_not_marked_seen_witness:
  "seen_ids (validate_obj example_lib example_bad_row 1 init_state) = {}
   \<and> valid_docs (validate_obj example_lib example_good_row 2 (validate_obj example_lib example_bad_row 1 init_state))
       = [\<lparr>sku = lit ''A1'', postCode = lit ''2000'', price = Finite 10\<rparr>]
   \<and> map e_error (errors (array_loop example_lib 1 [JDict example_bad_row, JDict example_bad_row] init_state))
       = [lit ''price not a number'', lit ''price not a number'']"
proof -
  have "row_errs example_lib (lit ''A1'') (lit ''2000'') (lit ''abc'') \<noteq> []"
    by (simp add: example_rows_errs)
  from invalid_row_not_marked_seen [OF example_rows_fields(1) this, of 1 init_state]
  show ?thesis
    by (simp add: example_rows_fields example_rows_errs example_rows_prices example_rows_docs
        field_error_def init_state_def)
qed

section \<open>C2: rows whose three fields are empty\<close>

lemma empty_row_paths:
  assumes "raw_fields L r = ([], [], [])"
  shows "reader_row L i r st = st
    \<and> validate_obj L r i st =
        st\<lparr>errors := errors st @
          [\<lparr>e_row = i, e_context = lit ''sku=, postCode='',
            e_error = lit ''sku missing; postCode missing; price missing''\<rparr>]\<rparr>"
proof -
  have "row_errs L [] [] [] = [lit ''sku missing'', lit ''postCode missing'', lit ''price missing'']"
    by (simp add: row_errs_alt)
  moreover have "join (lit ''; '') [lit ''sku missing'', lit ''postCode missing'', lit ''price missing'']
      = lit ''sku missing; postCode missing; price missing''"
    by (simp add: lit_def)
  moreover have "row_context [] [] = lit ''sku=, postCode=''"
    by (simp add: row_context_def lit_def)
  ultimately show ?thesis
    using assms by (simp add: reader_row_alt validate_obj_alt accept_row_invalid field_error_def)
qed

text \<open>
  C2: the claim holds for CSV and pasted rows and fails for JSON objects. The JSON array
  \<open>[{"sku": "", "postCode": "", "price": ""}]\<close> gives one error, at row 1, with the message
  "sku missing; postCode missing; price missing"; the same row from a CSV reader is skipped.
\<close>

theorem json_empty_row_reported:
  "validate_json example_lib \<lparr>jf_load = LoadedList [JDict (example_row [] [] [])], jf_lines = [], jf_read_error = None\<rparr>
     = ([], [\<lparr>e_row = 1, e_context = lit ''sku=, postCode='',
               e_error = lit ''sku missing; postCode missing; price missing''\<rparr>], [])
   \<and> validate_csv example_lib (CsvReader (Some [lit ''sku'', lit ''postCode'', lit ''price'']) [example_row [] [] []])
     = ([], [], [])"
proof -
  have "raw_fields example_lib (example_row [] [] []) = ([], [], [])"
    by (simp add: raw_fields_example_row strip_def strip_chars_def strip_with_def lstrip_with_def
        rstrip_with_def)
  from empty_row_paths [OF this] show ?thesis
    by (simp add: validate_json_def header_ok result_of_def init_state_def)
qed

section \<open>C1: two records with one identity key\<close>

text \<open>
  C1: the claim fails on the rows \<open>{sku: "\" \"a", postCode: "2000", price: "1"}\<close> and
  \<open>{sku: "a", postCode: "2000", price: "2"}\<close>. The first sku normalizes to \<open>"a\<close>, which
  \<open>is_valid_sku\<close> normalizes again to \<open>a\<close> and accepts; the id that is marked as seen is
  built from \<open>"a\<close>, the record from \<open>build_doc\<close> has the sku \<open>a\<close>. The second row has another
  id, so both rows become records with the sku \<open>a\<close> and the postCode \<open>2000\<close>, and no error is
  reported, from a JSON array and from a CSV reader alike.
\<close>

theorem same_identity_key_accepted_twice:
  "validate_json example_lib
     \<lparr>jf_load = LoadedList [JDict example_quoted_row, JDict example_plain_row], jf_lines = [],
      jf_read_error = None\<rparr>
     = ([\<lparr>sku = lit ''a'', postCode = lit ''2000'', price = Finite 1\<rparr>,
         \<lparr>sku = lit ''a'', postCode = lit ''2000'', price = Finite 2\<rparr>], [], [])
   \<and> validate_csv example_lib
       (CsvReader (Some [lit ''sku'', lit ''postCode'', lit ''price'']) [example_quoted_row, example_plain_row])
     = ([\<lparr>sku = lit ''a'', postCode = lit ''2000'', price = Finite 1\<rparr>,
         \<lparr>sku = lit ''a'', postCode = lit ''2000'', price = Finite 2\<rparr>], [], [])"
proof -
  have s1: "accept_row example_lib i [dq, 97] (lit ''2000'') (lit ''1'') init_state =
      init_state\<lparr>seen_ids := {doc_id_of [dq, 97] (lit ''2000'')},
        valid_docs := [\<lparr>sku = lit ''a'', postCode = lit ''2000'', price = Finite 1\<rparr>]\<rparr>" for i
    by (simp add: accept_row_valid example_rows_errs example_rows_prices example_rows_docs init_state_def)
  have s2: "accept_row example_lib j (lit ''a'') (lit ''2000'') (lit ''2'')
        (init_state\<lparr>seen_ids := {doc_id_of [dq, 97] (lit ''2000'')},
           valid_docs := [\<lparr>sku = lit ''a'', postCode = lit ''2000'', price = Finite 1\<rparr>]\<rparr>) =
      init_state\<lparr>seen_ids := {doc_id_of (lit ''a'') (lit ''2000''), doc_id_of [dq, 97] (lit ''2000'')},
        valid_docs := [\<lparr>sku = lit ''a'', postCode = lit ''2000'', price = Finite 1\<rparr>,
                       \<lparr>sku = lit ''a'', postCode = lit ''2000'', price = Finite 2\<rparr>]\<rparr>" for j
    by (simp add: accept_row_valid example_rows_errs example_rows_prices example_rows_docs example_rows_ids)
  have ne: "[dq, 97] \<noteq> []" "lit ''a'' \<noteq> []"
    by simp_all
  have j: "array_loop example_lib 1 [JDict example_quoted_row, JDict example_plain_row] init_state =
      init_state\<lparr>seen_ids := {doc_id_of (lit ''a'') (lit ''2000''), doc_id_of [dq, 97] (lit ''2000'')},
        valid_docs := [\<lparr>sku = lit ''a'', postCode = lit ''2000'', price = Finite 1\<rparr>,
                       \<lparr>sku = lit ''a'', postCode = lit ''2000'', price = Finite 2\<rparr>]\<rparr>"
    by (simp add: validate_obj_alt [OF example_rows_fields(3)] validate_obj_alt [OF example_rows_fields(4)]
        s1 s2)
  have c: "reader_loop example_lib 2 [example_quoted_row, example_plain_row] init_state =
      init_state\<lparr>seen_ids := {doc_id_of (lit ''a'') (lit ''2000''), doc_id_of [dq, 97] (lit ''2000'')},
        valid_docs := [\<lparr>sku = lit ''a'', postCode = lit ''2000'', price = Finite 1\<rparr>,
                       \<lparr>sku = lit ''a'', postCode = lit ''2000'', price = Finite 2\<rparr>]\<rparr>"
    using ne
    by (simp add: reader_row_alt [OF example_rows_fields(3)] reader_row_alt [OF example_rows_fields(4)]
        s1 s2)
  have r: "result_of (init_state\<lparr>seen_ids := {doc_id_of (lit ''a'') (lit ''2000''), doc_id_of [dq, 97] (lit ''2000'')},
        valid_docs := [\<lparr>sku = lit ''a'', postCode = lit ''2000'', price = Finite 1\<rparr>,
                       \<lparr>sku = lit ''a'', postCode = lit ''2000'', price = Finite 2\<rparr>]\<rparr>) =
      ([\<lparr>sku = lit ''a'', postCode = lit ''2000'', price = Finite 1\<rparr>,
        \<lparr>sku = lit ''a'', postCode = lit ''2000'', price = Finite 2\<rparr>], [], [])"
    by (simp add: result_of_def init_state_def)
  show ?thesis
    by (simp add: validate_json_def header_ok j c r del: array_loop.simps reader_loop.simps One_nat_def)
qed

section \<open>C8: groups and their labels\<close>























lemma group_labels_can_collide:
  "sanitize_group L (lit ''a/b'') = sanitize_group L (lit ''a_b'')"
  by (simp add: sanitize_group_def isalnum_def Let_def lit_def)



text \<open>
  Grouping by price keeps \<open>0.0\<close> and \<open>-0.0\<close> apart, as \<open>str\<close> prints them differently.
\<close>

lemma example_price_groups:
  "map fst (group_batches example_lib (lit ''price'')
      [\<lparr>sku = lit ''A1'', postCode = lit ''2000'', price = Finite 0\<rparr>,
       \<lparr>sku = lit ''A2'', postCode = lit ''2000'', price = NegZero\<rparr>]
      [\<lparr>sku = lit ''A1'', postCode = lit ''2000'', price = Finite 0\<rparr>,
       \<lparr>sku = lit ''A2'', postCode = lit ''2000'', price = NegZero\<rparr>]) = [lit ''0.0'', lit ''-0.0'']"
  by (simp add: group_batches_def build_groups_def group_key_def key_for_json_def sanitize_group_def
      isalnum_def lower_def example_lib_def str_nat.simps UNK_def Let_def eval_str)




end
